theory Spec2Isabelle
  imports Main
begin

section \<open>Caltrix: the Notion-to-Discord schedule pipeline of index.cjs\<close>

text \<open>
  The development embeds the synchronisation pipeline of \<^verbatim>\<open>src/index.cjs\<close>: the Notion
  property readers, the cached relation resolver, the month query, the line renderer and
  the persistent-message protocol.

  Conventions.
  \<^item> A JavaScript string is held as the list of its UTF-8 bytes, so ASCII text is written
    as an ordinary literal and the glyphs of the source are named byte sequences.
  \<^item> A \<^verbatim>\<open>Date\<close> is its time value in milliseconds, \<open>None\<close> for an Invalid Date (NaN).
  \<^item> An \<^verbatim>\<open>async\<close> function is a state transformer on a \<open>world\<close> that returns either the
    thrown error or the value, together with the world it leaves behind. Every await
    runs to completion before the next statement (one request is processed at a time).
  \<^item> What the JavaScript engine, the Notion service and the Discord service decide is
    read from fields of the world; every request sent out is appended to its \<open>log\<close>.
\<close>

subsection \<open>Strings\<close>

definition truthy :: "string \<Rightarrow> bool" where
  \<comment> \<open>a string is falsy exactly when it is empty\<close>
  "truthy s = (s \<noteq> [])"

definition orElse :: "string \<Rightarrow> string \<Rightarrow> string" where
  \<comment> \<open>\<^verbatim>\<open>a || b\<close> on strings\<close>
  "orElse a b = (if truthy a then a else b)"

definition digit :: "nat \<Rightarrow> char" where
  "digit d = char_of (48 + d)"

fun dec :: "nat \<Rightarrow> string" where
  "dec n = (if n < 10 then [digit n] else dec (n div 10) @ [digit (n mod 10)])"

declare dec.simps [simp del]

definition showInt :: "int \<Rightarrow> string" where
  \<comment> \<open>\<^verbatim>\<open>String(n)\<close> for an integral number\<close>
  "showInt i = (if i < 0 then CHR ''-'' # dec (nat (- i)) else dec (nat i))"

definition padStart2 :: "string \<Rightarrow> string" where
  \<comment> \<open>\<^verbatim>\<open>s.padStart(2, "0")\<close>\<close>
  "padStart2 s = replicate (2 - length s) (CHR ''0'') @ s"

fun join :: "string \<Rightarrow> string list \<Rightarrow> string" where
  "join sep [] = []"
| "join sep [x] = x"
| "join sep (x # y # ys) = x @ sep @ join sep (y # ys)"

definition toUpperCase :: "string \<Rightarrow> string" where
  \<comment> \<open>applied by the source to the English short month names only; ASCII letters\<close>
  "toUpperCase s =
     map (\<lambda>c. if 97 \<le> (of_char c :: nat) \<and> (of_char c :: nat) \<le> 122
               then char_of ((of_char c :: nat) - 32) else c) s"

definition WhiteSpace :: "string list" where
  \<comment> \<open>UTF-8 encodings of the code points that \<^verbatim>\<open>String.prototype.trim\<close> strips:
      TAB, LF, VT, FF, CR, SP, U+00A0, U+1680, U+2000..U+200A, U+2028, U+2029, U+202F,
      U+205F, U+3000, U+FEFF\<close>
  "WhiteSpace =
     [[CHR 0x09], [CHR 0x0A], [CHR 0x0B], [CHR 0x0C], [CHR 0x0D], [CHR 0x20],
      [CHR 0xC2, CHR 0xA0], [CHR 0xE1, CHR 0x9A, CHR 0x80],
      [CHR 0xE2, CHR 0x80, CHR 0x80], [CHR 0xE2, CHR 0x80, CHR 0x81],
      [CHR 0xE2, CHR 0x80, CHR 0x82], [CHR 0xE2, CHR 0x80, CHR 0x83],
      [CHR 0xE2, CHR 0x80, CHR 0x84], [CHR 0xE2, CHR 0x80, CHR 0x85],
      [CHR 0xE2, CHR 0x80, CHR 0x86], [CHR 0xE2, CHR 0x80, CHR 0x87],
      [CHR 0xE2, CHR 0x80, CHR 0x88], [CHR 0xE2, CHR 0x80, CHR 0x89],
      [CHR 0xE2, CHR 0x80, CHR 0x8A], [CHR 0xE2, CHR 0x80, CHR 0xA8],
      [CHR 0xE2, CHR 0x80, CHR 0xA9], [CHR 0xE2, CHR 0x80, CHR 0xAF],
      [CHR 0xE2, CHR 0x81, CHR 0x9F], [CHR 0xE3, CHR 0x80, CHR 0x80],
      [CHR 0xEF, CHR 0xBB, CHR 0xBF]]"

definition starts :: "string list \<Rightarrow> string \<Rightarrow> nat" where
  \<comment> \<open>length of the first listed sequence that \<open>s\<close> begins with, 0 when there is none\<close>
  "starts pats s =
     (case find (\<lambda>p. take (length p) s = p) pats of None \<Rightarrow> 0 | Some p \<Rightarrow> length p)"

fun strip :: "string list \<Rightarrow> string \<Rightarrow> string" where
  "strip pats [] = []"
| "strip pats (c # s) =
     (if starts pats (c # s) = 0 then c # s
      else strip pats (drop (starts pats (c # s) - 1) s))"

definition trim :: "string \<Rightarrow> string" where
  "trim s = rev (strip (map rev WhiteSpace) (rev (strip WhiteSpace s)))"

subsection \<open>Glyphs and separators of the source\<close>

definition glyph_birthday :: string where
  "glyph_birthday = [CHR 0xF0, CHR 0x9F, CHR 0x8E, CHR 0x82]"  \<comment> \<open>U+1F382\<close>
definition glyph_comeback :: string where
  "glyph_comeback = [CHR 0xF0, CHR 0x9F, CHR 0x94, CHR 0x94]"  \<comment> \<open>U+1F514\<close>
definition glyph_release :: string where
  "glyph_release = [CHR 0xF0, CHR 0x9F, CHR 0x92, CHR 0xBF]"   \<comment> \<open>U+1F4BF\<close>
definition glyph_event :: string where
  "glyph_event = [CHR 0xF0, CHR 0x9F, CHR 0x93, CHR 0x8D]"     \<comment> \<open>U+1F4CD\<close>
definition em_dash :: string where
  "em_dash = [CHR 0xE2, CHR 0x80, CHR 0x94]"                    \<comment> \<open>U+2014\<close>
definition bullet :: string where
  "bullet = [CHR 0xE2, CHR 0x80, CHR 0xA2]"                     \<comment> \<open>U+2022\<close>
definition middle_dot :: string where
  "middle_dot = [CHR 0xC2, CHR 0xB7]"                           \<comment> \<open>U+00B7\<close>
definition ellipsis :: string where
  "ellipsis = [CHR 0xE2, CHR 0x80, CHR 0xA6]"                   \<comment> \<open>U+2026\<close>

subsection \<open>Dates: the time-value arithmetic of ECMAScript\<close>

definition msPerDay :: int where
  "msPerDay = 86400000"

definition Day :: "int \<Rightarrow> int" where
  "Day t = t div msPerDay"

definition DaysInYear :: "int \<Rightarrow> int" where
  "DaysInYear y =
     (if y mod 4 \<noteq> 0 then 365 else if y mod 100 \<noteq> 0 then 366
      else if y mod 400 \<noteq> 0 then 365 else 366)"

definition DayFromYear :: "int \<Rightarrow> int" where
  "DayFromYear y =
     365 * (y - 1970) + (y - 1969) div 4 - (y - 1901) div 100 + (y - 1601) div 400"

definition YearFromTime :: "int \<Rightarrow> int" where
  \<comment> \<open>the year \<open>y\<close> with \<open>DayFromYear y \<le> Day t < DayFromYear (y + 1)\<close>: an estimate from
      the mean year length, moved by one year where it is off\<close>
  "YearFromTime t =
     (let d = Day t; y = 1970 + (400 * d) div 146097
      in if d < DayFromYear y then y - 1
         else if DayFromYear (y + 1) \<le> d then y + 1 else y)"

definition leapDay :: "int \<Rightarrow> int" where
  "leapDay y = (if DaysInYear y = 366 then 1 else 0)"

definition DayWithinYear :: "int \<Rightarrow> int" where
  "DayWithinYear t = Day t - DayFromYear (YearFromTime t)"

definition MonthFromTime :: "int \<Rightarrow> int" where
  "MonthFromTime t =
     (let d = DayWithinYear t; l = leapDay (YearFromTime t)
      in if d < 31 then 0 else if d < 59 + l then 1 else if d < 90 + l then 2
         else if d < 120 + l then 3 else if d < 151 + l then 4 else if d < 181 + l then 5
         else if d < 212 + l then 6 else if d < 243 + l then 7 else if d < 273 + l then 8
         else if d < 304 + l then 9 else if d < 334 + l then 10 else 11)"

definition firstDayOfMonth :: "int \<Rightarrow> int \<Rightarrow> int" where
  \<comment> \<open>day within the year \<open>y\<close> on which month \<open>m\<close> (0 = January) begins\<close>
  "firstDayOfMonth y m =
     (if m = 0 then 0 else if m = 1 then 31
      else [59, 90, 120, 151, 181, 212, 243, 273, 304, 334] ! nat (m - 2) + leapDay y)"

definition DateFromTime :: "int \<Rightarrow> int" where
  "DateFromTime t =
     DayWithinYear t - firstDayOfMonth (YearFromTime t) (MonthFromTime t) + 1"

definition MakeDay :: "int \<Rightarrow> int \<Rightarrow> int \<Rightarrow> int" where
  \<comment> \<open>months outside 0..11 carry into the year\<close>
  "MakeDay year month date =
     (let ym = year + month div 12; mn = month mod 12
      in DayFromYear ym + firstDayOfMonth ym mn + date - 1)"

definition MakeTime :: "int \<Rightarrow> int \<Rightarrow> int \<Rightarrow> int \<Rightarrow> int" where
  "MakeTime h m s ms = h * 3600000 + m * 60000 + s * 1000 + ms"

definition MakeDate :: "int \<Rightarrow> int \<Rightarrow> int" where
  "MakeDate day time = day * msPerDay + time"

definition TimeClip :: "int \<Rightarrow> int option" where
  "TimeClip t = (if \<bar>t\<bar> > 8640000000000000 then None else Some t)"

subsection \<open>Data: Notion pages, normalized records, Discord messages\<close>

datatype property =
  PTitle "string list"        \<comment> \<open>type "title": the \<^verbatim>\<open>plain_text\<close> of each rich-text item\<close>
| PRichText "string list"     \<comment> \<open>type "rich_text"\<close>
| PSelect "string option"     \<comment> \<open>type "select": \<^verbatim>\<open>null\<close> or the option's name\<close>
| PUrl "string option"        \<comment> \<open>type "url"\<close>
| PDate "string option"       \<comment> \<open>type "date": \<^verbatim>\<open>null\<close> or the \<^verbatim>\<open>start\<close> string\<close>
| PRelation "string list"     \<comment> \<open>type "relation": the ids of the related pages\<close>
| POther                      \<comment> \<open>any other property type\<close>

text \<open>
  A page is its \<^verbatim>\<open>properties\<close> object, in the order \<^verbatim>\<open>Object.keys\<close> enumerates it (keys
  are distinct, as in any object); a missing \<^verbatim>\<open>properties\<close> reads as the empty object.
\<close>

type_synonym page = "(string \<times> property) list"

record item =
  title :: string
  type :: string
  dateObj :: "int option"
  timeText :: string
  location :: string
  link :: string
  artistText :: string
  memberText :: string

record embed =
  embed_title :: string
  embed_description :: string
  embed_footer :: string

record message =
  content :: string
  embeds :: "embed list"

record thread =
  messages :: "string \<rightharpoonup> message"  \<comment> \<open>the messages that can be fetched, by id\<close>
  writable :: bool                   \<comment> \<open>whether Discord accepts a send or an edit here\<close>

record meta_entry =
  messageId :: string

record db_query =
  status_property :: string
  status_equals :: string
  date_property :: string
  on_or_after :: int   \<comment> \<open>the time value that the ISO string sent denotes\<close>
  before :: int
  sort_property :: string
  sort_direction :: string
  page_size :: nat

datatype error =
  FetchFailed string       \<comment> \<open>\<^verbatim>\<open>fetch\<close> itself rejected\<close>
| NotionApi nat string     \<comment> \<open>\<^verbatim>\<open>Notion API <status>: <message>\<close>\<close>
| RangeError               \<comment> \<open>\<^verbatim>\<open>toISOString\<close> of an Invalid Date\<close>
| ThreadNotFound string    \<comment> \<open>\<^verbatim>\<open>Thread not found or no access: <id>\<close>\<close>
| DiscordError string      \<comment> \<open>a rejected Discord request\<close>
| EmbedInvalid             \<comment> \<open>a value refused by an \<^verbatim>\<open>EmbedBuilder\<close> setter\<close>

datatype 'a http =
  NetworkFailure string    \<comment> \<open>no response\<close>
| Response nat string 'a   \<comment> \<open>status, \<^verbatim>\<open>data?.message || JSON.stringify(data)\<close>, parsed body\<close>

datatype event =
  DbQuery string db_query
| GetPage string
| ChannelFetch string
| MessageFetch string string
| Send string string
| Edit string string message
| SaveMeta

record platform =
  LocalTZA :: "int \<Rightarrow> bool \<Rightarrow> int"    \<comment> \<open>the host's time-zone offset, as in ECMAScript\<close>
  Date_parse :: "string \<Rightarrow> int option" \<comment> \<open>time value of \<^verbatim>\<open>new Date(s)\<close>, \<open>None\<close> if invalid\<close>
  embed_valid :: "embed \<Rightarrow> bool"        \<comment> \<open>whether the \<^verbatim>\<open>EmbedBuilder\<close> setters accept the texts\<close>

record world =
  host :: platform
  pageTitleCache :: "string \<rightharpoonup> string"
  meta_file :: "(string \<rightharpoonup> meta_entry) option"   \<comment> \<open>\<open>None\<close>: missing or not JSON\<close>
  notion_query :: "string \<Rightarrow> db_query \<Rightarrow> page list http"
  notion_page :: "string \<Rightarrow> page http"
  channels :: "string \<Rightarrow> error + thread option"
  snowflake :: nat                                   \<comment> \<open>the id Discord gives the next message\<close>
  log :: "event list"

subsection \<open>Date objects on the host\<close>

definition UTC :: "platform \<Rightarrow> int \<Rightarrow> int" where
  "UTC pf t = t - LocalTZA pf t False"

definition LocalTime :: "platform \<Rightarrow> int \<Rightarrow> int" where
  "LocalTime pf t = t + LocalTZA pf t True"

definition newDate :: "platform \<Rightarrow> int \<Rightarrow> int \<Rightarrow> int \<Rightarrow> int \<Rightarrow> int \<Rightarrow> int \<Rightarrow> int \<Rightarrow> int option" where
  \<comment> \<open>\<^verbatim>\<open>new Date(year, month, date, h, m, s, ms)\<close>: local fields, years 0..99 mean 1900..1999\<close>
  "newDate pf year month date h m s ms =
     (let yr = (if 0 \<le> year \<and> year \<le> 99 then 1900 + year else year)
      in TimeClip (UTC pf (MakeDate (MakeDay yr month date) (MakeTime h m s ms))))"

definition getDate :: "platform \<Rightarrow> int option \<Rightarrow> int option" where
  "getDate pf d = map_option (\<lambda>t. DateFromTime (LocalTime pf t)) d"

definition getMonth :: "platform \<Rightarrow> int option \<Rightarrow> int option" where
  "getMonth pf d = map_option (\<lambda>t. MonthFromTime (LocalTime pf t)) d"

definition showNumber :: "int option \<Rightarrow> string" where
  \<comment> \<open>\<^verbatim>\<open>String(x)\<close> for an integral number or NaN\<close>
  "showNumber x = (case x of None \<Rightarrow> ''NaN'' | Some i \<Rightarrow> showInt i)"

definition monthShort :: "string list" where
  "monthShort = [''Jan'', ''Feb'', ''Mar'', ''Apr'', ''May'', ''Jun'',
                 ''Jul'', ''Aug'', ''Sep'', ''Oct'', ''Nov'', ''Dec'']"

definition monthLong :: "string list" where
  "monthLong = [''January'', ''February'', ''March'', ''April'', ''May'', ''June'', ''July'',
                ''August'', ''September'', ''October'', ''November'', ''December'']"

definition toLocaleMonth :: "string list \<Rightarrow> platform \<Rightarrow> int option \<Rightarrow> string" where
  \<comment> \<open>\<^verbatim>\<open>d.toLocaleString("en-US", { month: ... })\<close> with the given table of names\<close>
  "toLocaleMonth names pf d =
     (case getMonth pf d of None \<Rightarrow> ''Invalid Date'' | Some m \<Rightarrow> names ! nat m)"

definition toISOString :: "int option \<Rightarrow> error + int" where
  "toISOString d = (case d of None \<Rightarrow> Inl RangeError | Some t \<Rightarrow> Inr t)"

text \<open>
  A month key \<^verbatim>\<open>YYYY-MM\<close> is held as the pair of numbers that
  \<^verbatim>\<open>monthKey.split("-").map(Number)\<close> reads from it.
\<close>

type_synonym monthKey = "int \<times> int"

definition monthStartEnd :: "platform \<Rightarrow> monthKey \<Rightarrow> int option \<times> int option" where
  "monthStartEnd pf monthKey =
     (case monthKey of (Y, M) \<Rightarrow>
        (newDate pf Y (M - 1) 1 0 0 0 0, newDate pf Y M 1 0 0 0 0))"

definition fmtMonthTitle :: "platform \<Rightarrow> monthKey \<Rightarrow> string" where
  "fmtMonthTitle pf monthKey =
     (case monthKey of (Y, M) \<Rightarrow>
        toLocaleMonth monthLong pf (newDate pf Y (M - 1) 1 0 0 0 0) @ '' '' @ showInt Y)"

subsection \<open>Notion REST\<close>

definition notionRequest :: "'a http \<Rightarrow> error + 'a" where
  \<comment> \<open>the argument is what \<^verbatim>\<open>fetch\<close> produced for the request\<close>
  "notionRequest res =
     (case res of
        NetworkFailure m \<Rightarrow> Inl (FetchFailed m)
      | Response status msg data \<Rightarrow>
          if \<not> (200 \<le> status \<and> status \<le> 299) then Inl (NotionApi status msg) else Inr data)"

definition notionDbQuery :: "string \<Rightarrow> db_query \<Rightarrow> world \<Rightarrow> (error + page list) \<times> world" where
  "notionDbQuery databaseId body w =
     (notionRequest (notion_query w databaseId body),
      w\<lparr>log := log w @ [DbQuery databaseId body]\<rparr>)"

definition notionGetPage :: "string \<Rightarrow> world \<Rightarrow> (error + page) \<times> world" where
  "notionGetPage pageId w =
     (notionRequest (notion_page w pageId), w\<lparr>log := log w @ [GetPage pageId]\<rparr>)"

subsection \<open>Notion parsing\<close>

definition rtPlain :: "string list \<Rightarrow> string" where
  "rtPlain arr = concat arr"

definition titlePlain :: "property option \<Rightarrow> string" where
  "titlePlain prop = (case prop of Some (PTitle arr) \<Rightarrow> rtPlain arr | _ \<Rightarrow> [])"

definition richTextPlain :: "property option \<Rightarrow> string" where
  "richTextPlain prop = (case prop of Some (PRichText arr) \<Rightarrow> rtPlain arr | _ \<Rightarrow> [])"

definition selectPlain :: "property option \<Rightarrow> string" where
  "selectPlain prop =
     (case prop of Some (PSelect (Some name)) \<Rightarrow> orElse name [] | _ \<Rightarrow> [])"

definition urlPlain :: "property option \<Rightarrow> string" where
  "urlPlain prop = (case prop of Some (PUrl (Some url)) \<Rightarrow> orElse url [] | _ \<Rightarrow> [])"

definition dateStart :: "property option \<Rightarrow> string option" where
  "dateStart prop =
     (case prop of
        Some (PDate (Some start)) \<Rightarrow> if truthy start then Some start else None
      | _ \<Rightarrow> None)"

definition relationIds :: "property option \<Rightarrow> string list" where
  "relationIds prop = (case prop of Some (PRelation ids) \<Rightarrow> ids | _ \<Rightarrow> [])"

definition isTitle :: "property \<Rightarrow> bool" where
  "isTitle p = (case p of PTitle _ \<Rightarrow> True | _ \<Rightarrow> False)"

subsection \<open>Relation resolution (cached)\<close>

definition firstTitleFromPage :: "page \<Rightarrow> string" where
  "firstTitleFromPage props =
     (case find (\<lambda>kv. isTitle (snd kv)) props of
        None \<Rightarrow> []
      | Some (titleKey, p) \<Rightarrow> titlePlain (Some p))"

definition getPageTitleCached :: "string \<Rightarrow> world \<Rightarrow> (error + string) \<times> world" where
  "getPageTitleCached pageId w =
     (case pageTitleCache w pageId of
        Some t \<Rightarrow> (Inr t, w)
      | None \<Rightarrow>
          (case notionGetPage pageId w of
             (Inl e, w1) \<Rightarrow> (Inl e, w1)
           | (Inr page, w1) \<Rightarrow>
               (let title = orElse (firstTitleFromPage page) []
                in (Inr title, w1\<lparr>pageTitleCache := (pageTitleCache w1)(pageId \<mapsto> title)\<rparr>))))"

fun resolveEach :: "string list \<Rightarrow> string list \<Rightarrow> world \<Rightarrow> (error + string list) \<times> world" where
  \<comment> \<open>the \<^verbatim>\<open>for (const id of sliced)\<close> loop, \<open>names\<close> being the array built so far\<close>
  "resolveEach [] names w = (Inr names, w)"
| "resolveEach (pageId # rest) names w =
     (case getPageTitleCached pageId w of
        (Inl e, w1) \<Rightarrow> (Inl e, w1)
      | (Inr t, w1) \<Rightarrow> resolveEach rest (if truthy t then names @ [t] else names) w1)"

definition resolveRelationNames ::
  "property option \<Rightarrow> nat \<Rightarrow> world \<Rightarrow> (error + string list) \<times> world" where
  \<comment> \<open>\<open>mx\<close> is the display count \<^verbatim>\<open>max\<close>; both call sites pass 2\<close>
  "resolveRelationNames prop mx w =
     (let ids = relationIds prop
      in if length ids = 0 then (Inr [], w)
         else (case resolveEach (take mx ids) [] w of
                 (Inl e, w1) \<Rightarrow> (Inl e, w1)
               | (Inr names, w1) \<Rightarrow>
                   (Inr (if length ids > mx
                         then names @ [''+'' @ dec (length ids - mx)] else names), w1)))"

subsection \<open>Query Notion (month)\<close>

definition getProp :: "page \<Rightarrow> string \<Rightarrow> property option" where
  \<comment> \<open>\<^verbatim>\<open>p[name]\<close>\<close>
  "getProp p name = map_of p name"

definition monthQuery :: "int \<Rightarrow> int \<Rightarrow> db_query" where
  \<comment> \<open>the body sent to the database: status Upcoming, date in \<open>[start, end)\<close>, by date\<close>
  "monthQuery startT endT =
     \<lparr>status_property = ''Status'', status_equals = ''Upcoming'', date_property = ''Date'',
      on_or_after = startT, before = endT,
      sort_property = ''Date'', sort_direction = ''ascending'', page_size = 100\<rparr>"

fun collectItems :: "page list \<Rightarrow> item list \<Rightarrow> world \<Rightarrow> (error + item list) \<times> world" where
  \<comment> \<open>the \<^verbatim>\<open>for (const page of res.results || [])\<close> loop, \<open>items\<close> being the array so far\<close>
  "collectItems [] items w = (Inr items, w)"
| "collectItems (p # rest) items w =
     (let title' = orElse (titlePlain (getProp p ''Title'')) ''(Untitled)'';
          type' = selectPlain (getProp p ''Type'')
      in case dateStart (getProp p ''Date'') of
           None \<Rightarrow> collectItems rest items w
         | Some ds \<Rightarrow>
             (let dateObj' = Date_parse (host w) ds;
                  timeProp = getProp p ''Time'';
                  timeText' = (case timeProp of
                                 Some (PRichText _) \<Rightarrow> richTextPlain timeProp | _ \<Rightarrow> []);
                  location' = selectPlain (getProp p ''Location'');
                  link' = urlPlain (getProp p ''Link'')
              in case resolveRelationNames (getProp p ''Artist'') 2 w of
                   (Inl e, w1) \<Rightarrow> (Inl e, w1)
                 | (Inr artistNames, w1) \<Rightarrow>
                     (case resolveRelationNames (getProp p ''Member'') 2 w1 of
                        (Inl e, w2) \<Rightarrow> (Inl e, w2)
                      | (Inr memberNames, w2) \<Rightarrow>
                          collectItems rest
                            (items @
                             [\<lparr>title = title', type = type', dateObj = dateObj',
                               timeText = trim (orElse timeText' []),
                               location = trim (orElse location' []),
                               link = trim (orElse link' []),
                               artistText = join '', '' artistNames,
                               memberText = join '', '' memberNames\<rparr>]) w2)))"

definition compareDates :: "item \<Rightarrow> item \<Rightarrow> int option" where
  \<comment> \<open>\<^verbatim>\<open>(a, b) => a.dateObj - b.dateObj\<close>; \<open>None\<close> is NaN\<close>
  "compareDates a b =
     (case (dateObj a, dateObj b) of (Some x, Some y) \<Rightarrow> Some (x - y) | _ \<Rightarrow> None)"

definition positive :: "int option \<Rightarrow> bool" where
  \<comment> \<open>the comparator asks for a swap; NaN counts as 0\<close>
  "positive v = (case v of None \<Rightarrow> False | Some n \<Rightarrow> n > 0)"

text \<open>
  \<^verbatim>\<open>Array.prototype.sort\<close> is stable. For a comparator that is a consistent ordering its
  result is the stable sort, computed here by insertion. (Where the comparator returns
  NaN for some pairs, ECMAScript leaves the order to the implementation and this is one
  admissible outcome.)
\<close>

fun insertWith :: "('a \<Rightarrow> 'a \<Rightarrow> int option) \<Rightarrow> 'a \<Rightarrow> 'a list \<Rightarrow> 'a list" where
  "insertWith cmp x [] = [x]"
| "insertWith cmp x (y # ys) =
     (if positive (cmp x y) then y # insertWith cmp x ys else x # y # ys)"

fun sortWith :: "('a \<Rightarrow> 'a \<Rightarrow> int option) \<Rightarrow> 'a list \<Rightarrow> 'a list" where
  "sortWith cmp [] = []"
| "sortWith cmp (x # xs) = insertWith cmp x (sortWith cmp xs)"

definition queryNotionForMonth ::
  "string \<Rightarrow> monthKey \<Rightarrow> world \<Rightarrow> (error + item list) \<times> world" where
  "queryNotionForMonth databaseId monthKey w =
     (case monthStartEnd (host w) monthKey of (start, end') \<Rightarrow>
        (let w0 = w\<lparr>pageTitleCache := Map.empty\<rparr>
         in case toISOString start of
              Inl e \<Rightarrow> (Inl e, w0)
            | Inr startT \<Rightarrow>
                (case toISOString end' of
                   Inl e \<Rightarrow> (Inl e, w0)
                 | Inr endT \<Rightarrow>
                     (case notionDbQuery databaseId (monthQuery startT endT) w0 of
                        (Inl e, w1) \<Rightarrow> (Inl e, w1)
                      | (Inr results, w1) \<Rightarrow>
                          (case collectItems results [] w1 of
                             (Inl e, w2) \<Rightarrow> (Inl e, w2)
                           | (Inr items, w2) \<Rightarrow> (Inr (sortWith compareDates items), w2))))))"

subsection \<open>Discord formatting\<close>

definition fmtLine :: "platform \<Rightarrow> item \<Rightarrow> string" where
  "fmtLine pf evt =
     (let d = dateObj evt;
          mon = toUpperCase (toLocaleMonth monthShort pf d);
          day = padStart2 (showNumber (getDate pf d));
          timePart = (if truthy (timeText evt) then '' | '' @ timeText evt else []);
          emoji = (if type evt = ''Birthday'' then glyph_birthday @ '' ''
                   else if type evt = ''Comeback'' then glyph_comeback @ '' ''
                   else if type evt = ''Release'' then glyph_release @ '' ''
                   else if type evt = ''Event'' then glyph_event @ '' ''
                   else []);
          metaParts = (if truthy (artistText evt) then [artistText evt] else []) @
                      (if truthy (memberText evt) then [memberText evt] else []) @
                      (if truthy (location evt) then [location evt] else []);
          meta = (if length metaParts \<noteq> 0
                  then '' '' @ em_dash @ '' '' @ join ('' '' @ bullet @ '' '') metaParts
                  else []);
          link' = (if truthy (link evt) then '' '' @ middle_dot @ '' '' @ link evt else [])
      in trim (''['' @ mon @ '' '' @ day @ timePart @ ''] '' @ emoji @ title evt @ meta @ link'))"

definition scheduleBody :: "platform \<Rightarrow> item list \<Rightarrow> string" where
  \<comment> \<open>the \<^verbatim>\<open>body\<close> of \<^verbatim>\<open>buildEmbed\<close>\<close>
  "scheduleBody pf events =
     (if length events \<noteq> 0 then join [CHR 0x0A] (map (fmtLine pf) events)
      else ''_No upcoming entries._'')"

definition buildEmbed :: "platform \<Rightarrow> monthKey \<Rightarrow> item list \<Rightarrow> string \<Rightarrow> error + embed" where
  \<comment> \<open>the callers always pass \<open>tzLabel\<close>; the builder's setters may refuse a text\<close>
  "buildEmbed pf monthKey events tzLabel =
     (let title' = ''Schedule '' @ em_dash @ '' '' @ fmtMonthTitle pf monthKey;
          body = scheduleBody pf events;
          e = \<lparr>embed_title = title', embed_description = body,
               embed_footer = ''Synced from Notion '' @ bullet @ '' '' @ tzLabel\<rparr>
      in if embed_valid pf e then Inr e else Inl EmbedInvalid)"

subsection \<open>Persistent message per thread (per guild and scope)\<close>

definition loadMetaAll :: "world \<Rightarrow> (string \<rightharpoonup> meta_entry)" where
  \<comment> \<open>\<^verbatim>\<open>loadJson(META_FILE, {})\<close>: a missing or unreadable file is the empty object\<close>
  "loadMetaAll w = (case meta_file w of None \<Rightarrow> Map.empty | Some m \<Rightarrow> m)"

definition saveMetaAll :: "(string \<rightharpoonup> meta_entry) \<Rightarrow> world \<Rightarrow> world" where
  "saveMetaAll meta w = w\<lparr>meta_file := Some meta, log := log w @ [SaveMeta]\<rparr>"

definition assign :: "(string \<rightharpoonup> 'v) \<Rightarrow> string \<Rightarrow> 'v \<Rightarrow> (string \<rightharpoonup> 'v)" where
  \<comment> \<open>\<^verbatim>\<open>obj[key] = v\<close> as \<^verbatim>\<open>JSON.stringify\<close> then sees the object: on a plain object the
      key \<^verbatim>\<open>__proto__\<close>, unless it is an own property, sets the prototype and adds no entry\<close>
  "assign obj key v = (if key = ''__proto__'' \<and> obj key = None then obj else obj(key \<mapsto> v))"

definition liveThread :: "world \<Rightarrow> string \<Rightarrow> thread option" where
  "liveThread w threadId = (case channels w threadId of Inr (Some th) \<Rightarrow> Some th | _ \<Rightarrow> None)"

definition channelsFetch :: "string \<Rightarrow> world \<Rightarrow> (error + string option) \<times> world" where
  \<comment> \<open>\<^verbatim>\<open>discord.channels.fetch(threadId)\<close>; the handle of a thread is its id\<close>
  "channelsFetch threadId w =
     (map_sum id (map_option (\<lambda>th. threadId)) (channels w threadId),
      w\<lparr>log := log w @ [ChannelFetch threadId]\<rparr>)"

definition messagesFetch :: "string \<Rightarrow> string \<Rightarrow> world \<Rightarrow> (error + string) \<times> world" where
  \<comment> \<open>\<^verbatim>\<open>thread.messages.fetch(msgId)\<close>; the handle of a message is its id\<close>
  "messagesFetch threadId msgId w =
     (case liveThread w threadId of
        None \<Rightarrow> Inl (DiscordError ''Unknown Channel'')
      | Some th \<Rightarrow>
          (case messages th msgId of
             None \<Rightarrow> Inl (DiscordError ''Unknown Message'')
           | Some m \<Rightarrow> Inr msgId),
      w\<lparr>log := log w @ [MessageFetch threadId msgId]\<rparr>)"

definition send :: "string \<Rightarrow> string \<Rightarrow> world \<Rightarrow> (error + string) \<times> world" where
  \<comment> \<open>\<^verbatim>\<open>thread.send(text)\<close>: a new message under the next snowflake\<close>
  "send threadId text w =
     (let w1 = w\<lparr>log := log w @ [Send threadId text]\<rparr>
      in case liveThread w threadId of
           None \<Rightarrow> (Inl (DiscordError ''Unknown Channel''), w1)
         | Some th \<Rightarrow>
             if \<not> writable th then (Inl (DiscordError ''Missing Access''), w1)
             else (let newId = dec (snowflake w);
                       th' = th\<lparr>messages := (messages th)(newId \<mapsto> \<lparr>content = text, embeds = []\<rparr>)\<rparr>
                   in (Inr newId,
                       w1\<lparr>channels := (channels w)(threadId := Inr (Some th')),
                          snowflake := Suc (snowflake w)\<rparr>)))"

definition edit :: "string \<Rightarrow> string \<Rightarrow> message \<Rightarrow> world \<Rightarrow> (error + unit) \<times> world" where
  \<comment> \<open>\<^verbatim>\<open>msg.edit(payload)\<close>: content and embeds are replaced in place\<close>
  "edit threadId msgId payload w =
     (let w1 = w\<lparr>log := log w @ [Edit threadId msgId payload]\<rparr>
      in case liveThread w threadId of
           None \<Rightarrow> (Inl (DiscordError ''Unknown Channel''), w1)
         | Some th \<Rightarrow>
             if \<not> writable th then (Inl (DiscordError ''Missing Access''), w1)
             else (case messages th msgId of
                     None \<Rightarrow> (Inl (DiscordError ''Unknown Message''), w1)
                   | Some m \<Rightarrow>
                       (Inr (),
                        w1\<lparr>channels := (channels w)(threadId :=
                              Inr (Some (th\<lparr>messages := (messages th)(msgId \<mapsto> payload)\<rparr>)))\<rparr>)))"

definition ensureScheduleMessage :: "string \<Rightarrow> string \<Rightarrow> world \<Rightarrow> (error + string) \<times> world" where
  "ensureScheduleMessage channelOrThread metaKey w =
     (let meta = loadMetaAll w;
          msgId = (case meta metaKey of None \<Rightarrow> [] | Some entry \<Rightarrow> messageId entry);
          attempt = (if truthy msgId then messagesFetch channelOrThread msgId w
                     else (Inl (DiscordError []), w))
      in case attempt of
           (Inr found, w1) \<Rightarrow> (Inr found, w1)
         | (Inl _, w1) \<Rightarrow>
             (case send channelOrThread (''Initializing schedule'' @ ellipsis) w1 of
                (Inl e, w2) \<Rightarrow> (Inl e, w2)
              | (Inr created, w2) \<Rightarrow>
                  (Inr created, saveMetaAll (assign meta metaKey \<lparr>messageId = created\<rparr>) w2)))"

definition publishSchedule ::
  "string option \<Rightarrow> string \<Rightarrow> monthKey \<Rightarrow> string \<Rightarrow> string \<Rightarrow> world \<Rightarrow> (error + nat) \<times> world" where
  \<comment> \<open>\<open>threadId\<close> is \<open>None\<close> for \<^verbatim>\<open>null\<close> or \<^verbatim>\<open>undefined\<close>\<close>
  "publishSchedule threadId databaseId monthKey metaKey tzLabel w =
     (case threadId of
        None \<Rightarrow> (Inr 0, w)
      | Some tid \<Rightarrow>
          if \<not> truthy tid then (Inr 0, w)
          else (case queryNotionForMonth databaseId monthKey w of
                  (Inl e, w1) \<Rightarrow> (Inl e, w1)
                | (Inr events, w1) \<Rightarrow>
                    (case channelsFetch tid w1 of
                       (Inl e, w2) \<Rightarrow> (Inl e, w2)
                     | (Inr None, w2) \<Rightarrow> (Inl (ThreadNotFound tid), w2)
                     | (Inr (Some thread), w2) \<Rightarrow>
                         (case ensureScheduleMessage thread metaKey w2 of
                            (Inl e, w3) \<Rightarrow> (Inl e, w3)
                          | (Inr msg, w3) \<Rightarrow>
                              (case buildEmbed (host w3) monthKey events tzLabel of
                                 Inl e \<Rightarrow> (Inl e, w3)
                               | Inr emb \<Rightarrow>
                                   (case edit thread msg \<lparr>content = [], embeds = [emb]\<rparr> w3 of
                                      (Inl e, w4) \<Rightarrow> (Inl e, w4)
                                    | (Inr _, w4) \<Rightarrow> (Inr (length events), w4)))))))"

section \<open>Auxiliary definitions\<close>

subsection \<open>What a title lookup yields\<close>

definition lookupTitle :: "world \<Rightarrow> string \<Rightarrow> error + string" where
  \<comment> \<open>the outcome of \<open>getPageTitleCached\<close> for a page id: the cached title, else the
      outcome of the request for the page\<close>
  "lookupTitle w pageId =
     (case pageTitleCache w pageId of
        Some t \<Rightarrow> Inr t
      | None \<Rightarrow>
          map_sum id (\<lambda>page. orElse (firstTitleFromPage page) [])
            (notionRequest (notion_page w pageId)))"

fun namesFrom ::
  "(string \<Rightarrow> error + string) \<Rightarrow> string list \<Rightarrow> string list \<Rightarrow> error + string list" where
  \<comment> \<open>the names loop over a fixed lookup function\<close>
  "namesFrom f [] names = Inr names"
| "namesFrom f (pageId # rest) names =
     (case f pageId of
        Inl e \<Rightarrow> Inl e
      | Inr t \<Rightarrow> namesFrom f rest (if truthy t then names @ [t] else names))"

subsection \<open>A sample installation\<close>

text \<open>
  A host in Korean Standard Time whose \<^verbatim>\<open>Date\<close> parses the three ISO dates used below, a
  database of four pages (one of them without a date) that answers a query with the pages
  in the window asked for, five related pages of which the fifth cannot be fetched, one
  writable thread \<^verbatim>\<open>T1\<close> with no message yet, and a meta file that holds the record of
  another guild.
\<close>

definition demo_host :: platform where
  "demo_host =
     \<lparr>LocalTZA = (\<lambda>t isUTC. 32400000),
      Date_parse = (\<lambda>s. if s = ''2026-02-03'' then Some 1770076800000
                         else if s = ''2026-02-14'' then Some 1771027200000
                         else if s = ''2025-12-31T23:30:00+09:00'' then Some 1767191400000
                         else None),
      embed_valid = (\<lambda>e. True)\<rparr>"

definition demo_pages :: "page list" where
  "demo_pages =
     [[(''Title'', PTitle [''Show'', ''case'']), (''Type'', PSelect (Some ''Event'')),
       (''Date'', PDate (Some ''2026-02-14'')), (''Time'', PRichText ['' 7PM '']),
       (''Location'', PSelect (Some ''Seoul'')),
       (''Artist'', PRelation [''a1'', ''a2'', ''a3'', ''a4'', ''a5'']),
       (''Member'', PRelation [''a2''])],
      [(''Title'', PTitle [''Album X'']), (''Type'', PSelect (Some ''Release'')),
       (''Date'', PDate (Some ''2026-02-03''))],
      [(''Title'', PTitle [''Draft'']), (''Date'', PDate None),
       (''Artist'', PRelation [''a5''])],
      [(''Title'', PTitle [''Countdown'']),
       (''Date'', PDate (Some ''2025-12-31T23:30:00+09:00''))]]"

definition demo_in_window :: "db_query \<Rightarrow> page \<Rightarrow> bool" where
  "demo_in_window q p =
     (case dateStart (getProp p ''Date'') of
        None \<Rightarrow> True
      | Some ds \<Rightarrow>
          (case Date_parse demo_host ds of
             None \<Rightarrow> False
           | Some t \<Rightarrow> on_or_after q \<le> t \<and> t < before q))"

definition demo_world :: world where
  "demo_world =
     \<lparr>host = demo_host,
      pageTitleCache = Map.empty,
      meta_file = Some [''G2:nextMonth'' \<mapsto> \<lparr>messageId = ''900''\<rparr>],
      notion_query = (\<lambda>db q. if db = ''db1'' then Response 200 [] (filter (demo_in_window q) demo_pages)
                              else Response 404 ''Could not find database'' []),
      notion_page = (\<lambda>pid. if pid = ''a1'' then Response 200 [] [(''Name'', PTitle [''Aespa''])]
                            else if pid = ''a2'' then Response 200 [] [(''Name'', PTitle [''Karina''])]
                            else if pid = ''a3'' \<or> pid = ''a4'' then Response 200 [] [(''Name'', PTitle [])]
                            else Response 404 ''Could not find page'' []),
      channels = (\<lambda>tid. if tid = ''T1'' then Inr (Some \<lparr>messages = Map.empty, writable = True\<rparr>)
                         else Inl (DiscordError ''Unknown Channel'')),
      snowflake = 1000,
      log = []\<rparr>"

definition demo_release :: item where
  \<comment> \<open>the record of the second sample page: 3 February 2026, 00:00 UTC\<close>
  "demo_release =
     \<lparr>title = ''Album X'', type = ''Release'', dateObj = Some 1770076800000,
      timeText = [], location = [], link = [], artistText = [], memberText = []\<rparr>"

definition demo_showcase :: item where
  \<comment> \<open>the record of the first sample page: 14 February 2026, 00:00 UTC\<close>
  "demo_showcase =
     \<lparr>title = ''Showcase'', type = ''Event'', dateObj = Some 1771027200000,
      timeText = ''7PM'', location = ''Seoul'', link = [],
      artistText = ''Aespa, Karina, +3'', memberText = ''Karina''\<rparr>"

subsection \<open>Notions used in the statements\<close>

definition isNotion :: "event \<Rightarrow> bool" where
  "isNotion ev = (case ev of DbQuery _ _ \<Rightarrow> True | GetPage _ \<Rightarrow> True | _ \<Rightarrow> False)"

definition quiet :: "world \<Rightarrow> world \<Rightarrow> bool" where
  \<comment> \<open>the second world differs from the first in the title cache at most, and in the
      log by Notion requests added at its end\<close>
  "quiet w w' \<longleftrightarrow>
     host w' = host w \<and> meta_file w' = meta_file w \<and> notion_query w' = notion_query w \<and>
     notion_page w' = notion_page w \<and> channels w' = channels w \<and> snowflake w' = snowflake w \<and>
     (\<exists>evs. log w' = log w @ evs \<and> list_all isNotion evs)"







definition hasDate :: "page \<Rightarrow> bool" where
  \<comment> \<open>the page has a usable date: \<open>dateStart\<close> of its Date property is not \<^verbatim>\<open>null\<close>\<close>
  "hasDate p = (dateStart (getProp p ''Date'') \<noteq> None)"

definition mapBody :: "('a \<Rightarrow> 'b) \<Rightarrow> 'a http \<Rightarrow> 'b http" where
  \<comment> \<open>the same response with another body\<close>
  "mapBody f res =
     (case res of NetworkFailure m \<Rightarrow> NetworkFailure m
      | Response status msg data \<Rightarrow> Response status msg (f data))"

definition withoutDateless :: "world \<Rightarrow> world" where
  \<comment> \<open>the same world, the database answering without the pages that have no usable date\<close>
  "withoutDateless w =
     w\<lparr>notion_query := (\<lambda>db q. mapBody (filter hasDate) (notion_query w db q))\<rparr>"

definition fetched :: "event list \<Rightarrow> string list" where
  \<comment> \<open>the page ids of the get-by-id requests among the events, in order\<close>
  "fetched evs = concat (map (\<lambda>ev. case ev of GetPage pid \<Rightarrow> [pid] | _ \<Rightarrow> []) evs)"

definition cached :: "nat \<Rightarrow> world \<Rightarrow> bool" where
  \<comment> \<open>since log position \<open>n\<close> every page was requested at most once and is in the cache\<close>
  "cached n w \<longleftrightarrow>
     n \<le> length (log w) \<and> distinct (fetched (drop n (log w))) \<and>
     set (fetched (drop n (log w))) \<subseteq> dom (pageTitleCache w)"

definition once :: "nat \<Rightarrow> world \<Rightarrow> bool" where
  \<comment> \<open>since log position \<open>n\<close> every page was requested at most once\<close>
  "once n w \<longleftrightarrow> n \<le> length (log w) \<and> distinct (fetched (drop n (log w)))"

definition ignoresQuery :: "(world \<Rightarrow> 'a \<times> world) \<Rightarrow> bool" where
  \<comment> \<open>the operation neither reads nor writes the database oracle\<close>
  "ignoresQuery f \<longleftrightarrow>
     (\<forall>w g. f (w\<lparr>notion_query := g\<rparr>) = (fst (f w), (snd (f w))\<lparr>notion_query := g\<rparr>))"

definition afterQuery :: "string \<Rightarrow> db_query \<Rightarrow> world \<Rightarrow> world" where
  \<comment> \<open>the world once the cache is cleared and the database query is sent\<close>
  "afterQuery db q w = w\<lparr>pageTitleCache := Map.empty, log := log w @ [DbQuery db q]\<rparr>"

definition publishEvents ::
  "string \<Rightarrow> monthKey \<Rightarrow> string \<Rightarrow> string \<Rightarrow> item list \<Rightarrow> world \<Rightarrow> (error + nat) \<times> world" where
  \<comment> \<open>the statements of \<open>publishSchedule\<close> that follow the query\<close>
  "publishEvents tid monthKey metaKey tzLabel events w1 =
     (case channelsFetch tid w1 of
        (Inl e, w2) \<Rightarrow> (Inl e, w2)
      | (Inr None, w2) \<Rightarrow> (Inl (ThreadNotFound tid), w2)
      | (Inr (Some thread), w2) \<Rightarrow>
          (case ensureScheduleMessage thread metaKey w2 of
             (Inl e, w3) \<Rightarrow> (Inl e, w3)
           | (Inr msg, w3) \<Rightarrow>
               (case buildEmbed (host w3) monthKey events tzLabel of
                  Inl e \<Rightarrow> (Inl e, w3)
                | Inr emb \<Rightarrow>
                    (case edit thread msg \<lparr>content = [], embeds = [emb]\<rparr> w3 of
                       (Inl e, w4) \<Rightarrow> (Inl e, w4)
                     | (Inr _, w4) \<Rightarrow> (Inr (length events), w4)))))"

definition afterChannelFetch :: "string \<Rightarrow> world \<Rightarrow> world" where
  \<comment> \<open>the world once the thread has been asked for\<close>
  "afterChannelFetch tid w = w\<lparr>log := log w @ [ChannelFetch tid]\<rparr>"

definition storedId :: "world \<Rightarrow> string \<Rightarrow> string" where
  \<comment> \<open>\<^verbatim>\<open>meta[metaKey]?.messageId\<close> read from the file, the empty string when there is none\<close>
  "storedId w metaKey =
     (case loadMetaAll w metaKey of None \<Rightarrow> [] | Some entry \<Rightarrow> messageId entry)"

definition placeholder :: string where
  \<comment> \<open>the text of a newly created message\<close>
  "placeholder = ''Initializing schedule'' @ ellipsis"

definition fetchable :: "world \<Rightarrow> string \<Rightarrow> string \<Rightarrow> bool" where
  \<comment> \<open>the thread is live and holds a message with this id\<close>
  "fetchable w tid mid =
     (case liveThread w tid of None \<Rightarrow> False | Some th \<Rightarrow> messages th mid \<noteq> None)"

definition shown :: "embed \<Rightarrow> message" where
  \<comment> \<open>the payload of the edit: no text, the one embed\<close>
  "shown emb = \<lparr>content = [], embeds = [emb]\<rparr>"

definition sent :: "event list \<Rightarrow> (string \<times> string) list" where
  \<comment> \<open>the messages created by the events: thread and text of each \<open>Send\<close>\<close>
  "sent evs = concat (map (\<lambda>ev. case ev of Send tid text \<Rightarrow> [(tid, text)] | _ \<Rightarrow> []) evs)"

definition edited :: "event list \<Rightarrow> (string \<times> string) list" where
  \<comment> \<open>the messages edited by the events: thread and message id of each \<open>Edit\<close>\<close>
  "edited evs = concat (map (\<lambda>ev. case ev of Edit tid mid p \<Rightarrow> [(tid, mid)] | _ \<Rightarrow> []) evs)"

definition saves :: "event list \<Rightarrow> nat" where
  \<comment> \<open>how often the events write the meta file\<close>
  "saves evs = length (filter (\<lambda>ev. ev = SaveMeta) evs)"

definition since :: "world \<Rightarrow> world \<Rightarrow> event list" where
  \<comment> \<open>the events logged between two worlds\<close>
  "since w w' = drop (length (log w)) (log w')"

definition alike :: "world \<Rightarrow> world \<Rightarrow> bool" where
  \<comment> \<open>the same host, database, pages and title cache\<close>
  "alike w v \<longleftrightarrow>
     host w = host v \<and> notion_query w = notion_query v \<and> notion_page w = notion_page v \<and>
     pageTitleCache w = pageTitleCache v"

definition sameBase :: "world \<Rightarrow> world \<Rightarrow> bool" where
  \<comment> \<open>the same host, database and pages\<close>
  "sameBase w v \<longleftrightarrow>
     host w = host v \<and> notion_query w = notion_query v \<and> notion_page w = notion_page v"

definition demo_first :: world where
  \<comment> \<open>the sample installation after a first publication of February 2026\<close>
  "demo_first =
     snd (publishSchedule (Some ''T1'') ''db1'' (2026, 2) ''G1:thisMonth'' ''KST'' demo_world)"

definition demo_changed :: world where
  \<comment> \<open>the same, the database now holding the Release page only\<close>
  "demo_changed = demo_first\<lparr>notion_query := (\<lambda>db q. Response 200 [] [demo_pages ! 1])\<rparr>"

definition demo_second :: world where
  \<comment> \<open>the sample installation after the second publication\<close>
  "demo_second =
     snd (publishSchedule (Some ''T1'') ''db1'' (2026, 2) ''G1:thisMonth'' ''KST'' demo_changed)"

section \<open>Properties\<close>

subsection \<open>The resolver as a function of the lookups\<close>

lemma getPageTitleCached_fst: "fst (getPageTitleCached pid w) = lookupTitle w pid"
  by (auto simp: getPageTitleCached_def lookupTitle_def notionGetPage_def Let_def
           split: option.splits sum.splits prod.splits)

lemma getPageTitleCached_lookup:
  "lookupTitle (snd (getPageTitleCached pid w)) = lookupTitle w"
  by (rule ext)
     (auto simp: getPageTitleCached_def lookupTitle_def notionGetPage_def Let_def
           split: option.splits sum.splits prod.splits)

lemma resolveEach_fst:
  "fst (resolveEach ids names w) = namesFrom (lookupTitle w) ids names"
proof (induction ids arbitrary: names w)
  case Nil
  show ?case by simp
next
  case (Cons pid rest)
  obtain r w1 where step: "getPageTitleCached pid w = (r, w1)"
    by (cases "getPageTitleCached pid w")
  have r: "r = lookupTitle w pid"
    using getPageTitleCached_fst [of pid w] step by simp
  have l: "lookupTitle w1 = lookupTitle w"
    using getPageTitleCached_lookup [of pid w] step by simp
  show ?case
  proof (cases "lookupTitle w pid")
    case (Inl e)
    then show ?thesis using step r by simp
  next
    case (Inr t)
    then show ?thesis using step r l Cons.IH by simp
  qed
qed

lemma namesFrom_shape:
  "namesFrom f ids names = Inr out \<Longrightarrow>
     out = names @ filter truthy (map (\<lambda>pid. case f pid of Inr t \<Rightarrow> t | Inl _ \<Rightarrow> []) ids)"
  by (induction f ids names rule: namesFrom.induct) (auto split: sum.splits if_splits)

lemma namesFrom_length:
  "namesFrom f ids names = Inr out \<Longrightarrow> length out \<le> length names + length ids"
  by (induction ids arbitrary: names) (fastforce split: sum.splits if_splits)+

lemma namesFrom_fail:
  "pid \<in> set ids \<Longrightarrow> f pid = Inl e \<Longrightarrow> \<exists>e'. namesFrom f ids names = Inl e'"
  by (induction ids arbitrary: names) (auto split: sum.splits)

lemma namesFrom_ok:
  "\<forall>pid\<in>set ids. \<exists>t. f pid = Inr t \<Longrightarrow> \<exists>out. namesFrom f ids names = Inr out"
  by (induction ids arbitrary: names) (auto split: sum.splits)

lemma resolveRelationNames_fst:
  "fst (resolveRelationNames prop mx w) =
     (let ids = relationIds prop
      in if ids = [] then Inr []
         else case namesFrom (lookupTitle w) (take mx ids) [] of
                Inl e \<Rightarrow> Inl e
              | Inr names \<Rightarrow>
                  Inr (if length ids > mx
                       then names @ [''+'' @ dec (length ids - mx)] else names))"
  using resolveEach_fst [of "take mx (relationIds prop)" "[]" w]
  by (auto simp: resolveRelationNames_def Let_def split: prod.splits sum.splits)

subsection \<open>C5: the resolver returns at most max + 1 names\<close>

text \<open>
  Claim C5. Whatever the relation property and the display count \<open>mx\<close>, the sequence that
  \<open>resolveRelationNames\<close> returns has at most \<open>mx + 1\<close> elements. With \<open>mx = 2\<close> and five
  identifiers it has at most three elements, it ends with the literal \<^verbatim>\<open>+3\<close>, and a third
  element, when there is one, is exactly \<^verbatim>\<open>+3\<close>.
\<close>

theorem resolveRelationNames_bounded:
  assumes "fst (resolveRelationNames prop mx w) = Inr names"
  shows "length names \<le> mx + 1 \<and>
         (mx = 2 \<and> length (relationIds prop) = 5 \<longrightarrow>
            length names \<le> 3 \<and> last names = ''+3'' \<and>
            (length names = 3 \<longrightarrow> names ! 2 = ''+3''))"
proof -
  let ?ids = "relationIds prop"
  show ?thesis
  proof (cases "?ids = []")
    case True
    with assms show ?thesis by (simp add: resolveRelationNames_fst)
  next
    case False
    with assms obtain out where out: "namesFrom (lookupTitle w) (take mx ?ids) [] = Inr out"
      and names: "names = (if length ?ids > mx
                           then out @ [''+'' @ dec (length ?ids - mx)] else out)"
      by (auto simp: resolveRelationNames_fst Let_def split: sum.splits)
    have len: "length out \<le> min (length ?ids) mx"
      using namesFrom_length [OF out] by simp
    have three: "dec (5 - 2) = ''3''" by code_simp
    have bound: "length names \<le> mx + 1"
      using len names by (auto split: if_splits)
    have special: "length names \<le> 3 \<and> last names = ''+3'' \<and>
                   (length names = 3 \<longrightarrow> names ! 2 = ''+3'')"
      if "mx = 2" "length ?ids = 5"
    proof -
      have n: "names = out @ [''+3'']" using names that three by simp
      have "length out \<le> 2" using len that by simp
      then show ?thesis using n by (auto simp: nth_append)
    qed
    show ?thesis using bound special by blast
  qed
qed

theorem resolveRelationNames_bounded_witness:
  "fst (resolveRelationNames (Some (PRelation [''a1'', ''a2'', ''a3'', ''a4'', ''a5''])) 2 demo_world)
     = Inr [''Aespa'', ''Karina'', ''+3''] \<and>
   length [''Aespa'', ''Karina'', ''+3''] \<le> 2 + 1 \<and>
   last [''Aespa'', ''Karina'', ''+3''] = ''+3'' \<and>
   [''Aespa'', ''Karina'', ''+3''] ! 2 = ''+3''"
proof -
  have h: "fst (resolveRelationNames (Some (PRelation [''a1'', ''a2'', ''a3'', ''a4'', ''a5''])) 2
             demo_world) = Inr [''Aespa'', ''Karina'', ''+3'']"
    by code_simp
  from resolveRelationNames_bounded [OF h] show ?thesis
    using h by (simp add: relationIds_def)
qed


subsection \<open>C1: a failed lookup aborts the resolution\<close>




subsection \<open>C8: an unconfigured scope is a no-op\<close>

text \<open>
  Claim C8. When the thread id is \<^verbatim>\<open>null\<close>, undefined or empty, \<open>publishSchedule\<close> returns 0
  and leaves the world as it found it: nothing is added to the log (no database query, no
  channel or message fetch, no send, no edit), no message and no file changes, and no
  error is raised.
\<close>

theorem publishSchedule_unconfigured_noop:
  assumes "threadId = None \<or> threadId = Some []"
  shows "publishSchedule threadId databaseId monthKey metaKey tzLabel w = (Inr 0, w)"
  using assms by (auto simp: publishSchedule_def truthy_def)

theorem publishSchedule_unconfigured_noop_witness:
  "publishSchedule None ''db1'' (2026, 2) ''G1:thisMonth'' ''KST'' demo_world = (Inr 0, demo_world) \<and>
   publishSchedule (Some []) ''db1'' (2026, 2) ''G1:thisMonth'' ''KST'' demo_world = (Inr 0, demo_world)"
  using publishSchedule_unconfigured_noop [of None "''db1''" "(2026, 2)" "''G1:thisMonth''" "''KST''" demo_world]
        publishSchedule_unconfigured_noop [of "Some []" "''db1''" "(2026, 2)" "''G1:thisMonth''" "''KST''" demo_world]
  by simp

subsection \<open>C6: the line of a bare Release record\<close>









subsection \<open>What a query leaves untouched\<close>

lemma quiet_refl: "quiet w w"
  by (simp add: quiet_def)

lemma quiet_trans: "quiet w w1 \<Longrightarrow> quiet w1 w2 \<Longrightarrow> quiet w w2"
  by (auto simp: quiet_def)

lemma getPageTitleCached_quiet: "quiet w (snd (getPageTitleCached pid w))"
  by (auto simp: getPageTitleCached_def notionGetPage_def quiet_def Let_def isNotion_def
           split: option.splits sum.splits)

lemma resolveEach_quiet: "quiet w (snd (resolveEach ids names w))"
proof (induction ids arbitrary: names w)
  case Nil
  show ?case by (simp add: quiet_refl)
next
  case (Cons pid rest)
  obtain r w1 where step: "getPageTitleCached pid w = (r, w1)"
    by (cases "getPageTitleCached pid w")
  have q1: "quiet w w1" using getPageTitleCached_quiet [of w pid] step by simp
  show ?case
  proof (cases r)
    case (Inl e)
    then show ?thesis using step q1 by simp
  next
    case (Inr t)
    then show ?thesis
      using step quiet_trans [OF q1 Cons.IH] by simp
  qed
qed

lemma resolveRelationNames_quiet: "quiet w (snd (resolveRelationNames prop mx w))"
  using resolveEach_quiet [of w "take mx (relationIds prop)" "[]"]
  by (auto simp: resolveRelationNames_def Let_def quiet_refl split: prod.splits sum.splits)

lemma collectItems_quiet: "quiet w (snd (collectItems pages items w))"
proof (induction pages arbitrary: items w)
  case Nil
  show ?case by (simp add: quiet_refl)
next
  case (Cons p rest)
  show ?case
  proof (cases "dateStart (getProp p ''Date'')")
    case None
    then show ?thesis using Cons.IH by simp
  next
    case (Some ds)
    obtain r1 w1 where s1: "resolveRelationNames (getProp p ''Artist'') 2 w = (r1, w1)"
      by (cases "resolveRelationNames (getProp p ''Artist'') 2 w")
    obtain r2 w2 where s2: "resolveRelationNames (getProp p ''Member'') 2 w1 = (r2, w2)"
      by (cases "resolveRelationNames (getProp p ''Member'') 2 w1")
    have q1: "quiet w w1" using resolveRelationNames_quiet [of w "getProp p ''Artist''" 2] s1 by simp
    have q2: "quiet w1 w2" using resolveRelationNames_quiet [of w1 "getProp p ''Member''" 2] s2 by simp
    have q12: "quiet w w2" by (rule quiet_trans [OF q1 q2])
    show ?thesis
    proof (cases r1)
      case (Inl e)
      then show ?thesis using Some s1 q1 by (simp add: Let_def)
    next
      case a: (Inr artistNames)
      show ?thesis
      proof (cases r2)
        case (Inl e)
        then show ?thesis using Some s1 s2 a q12 by (simp add: Let_def)
      next
        case (Inr memberNames)
        then show ?thesis
          using Some s1 s2 a quiet_trans [OF q12 Cons.IH] by (simp add: Let_def)
      qed
    qed
  qed
qed

subsection \<open>Where the returned dates come from\<close>


subsection \<open>The sort\<close>



lemma length_insertWith: "length (insertWith cmp x xs) = Suc (length xs)"
  by (induction xs) auto

lemma length_sortWith: "length (sortWith cmp xs) = length xs"
  by (induction xs) (auto simp: length_insertWith)



lemma queryNotionForMonth_items:
  assumes "fst (queryNotionForMonth db key w) = Inr items"
  shows "\<exists>s e results raw w'.
           monthStartEnd (host w) key = (Some s, Some e) \<and>
           notionRequest (notion_query w db (monthQuery s e)) = Inr results \<and>
           collectItems results []
             (w\<lparr>pageTitleCache := Map.empty, log := log w @ [DbQuery db (monthQuery s e)]\<rparr>)
             = (Inr raw, w') \<and>
           items = sortWith compareDates raw"
proof -
  obtain w' where "queryNotionForMonth db key w = (Inr items, w')"
    using assms by (cases "queryNotionForMonth db key w") simp
  then show ?thesis
    by (auto simp: queryNotionForMonth_def toISOString_def notionDbQuery_def Let_def
             split: prod.splits option.splits sum.splits)
qed

subsection \<open>C2: the returned records are in date order\<close>


lemma demo_query:
  "fst (queryNotionForMonth ''db1'' (2026, 2) demo_world) = Inr [demo_release, demo_showcase]"
  by code_simp


subsection \<open>C4: the returned records lie in the month's window\<close>








subsection \<open>Operations that do not consult the database\<close>

lemma ignoresQueryD:
  "ignoresQuery f \<Longrightarrow> f w = (r, w1) \<Longrightarrow> f (w\<lparr>notion_query := g\<rparr>) = (r, w1\<lparr>notion_query := g\<rparr>)"
  by (simp add: ignoresQuery_def)

lemma getPageTitleCached_ignoresQuery: "ignoresQuery (getPageTitleCached pid)"
  by (auto simp: ignoresQuery_def getPageTitleCached_def notionGetPage_def Let_def
           split: option.splits sum.splits)

lemma resolveEach_ignoresQuery: "ignoresQuery (resolveEach ids names)"
proof (induction ids arbitrary: names)
  case Nil
  show ?case by (simp add: ignoresQuery_def)
next
  case (Cons pid rest)
  show ?case
    unfolding ignoresQuery_def
  proof (intro allI)
    fix w g
    obtain r w1 where step: "getPageTitleCached pid w = (r, w1)"
      by (cases "getPageTitleCached pid w")
    note step' = ignoresQueryD [OF getPageTitleCached_ignoresQuery step, of g]
    show "resolveEach (pid # rest) names (w\<lparr>notion_query := g\<rparr>) =
            (fst (resolveEach (pid # rest) names w),
             (snd (resolveEach (pid # rest) names w))\<lparr>notion_query := g\<rparr>)"
    proof (cases r)
      case (Inl e)
      then show ?thesis using step step' by simp
    next
      case (Inr t)
      then show ?thesis using step step' Cons.IH [of "if truthy t then names @ [t] else names"]
        by (simp add: ignoresQuery_def)
    qed
  qed
qed

lemma resolveRelationNames_ignoresQuery: "ignoresQuery (resolveRelationNames prop mx)"
  unfolding ignoresQuery_def
proof (intro allI)
  fix w g
  obtain r w1 where step: "resolveEach (take mx (relationIds prop)) [] w = (r, w1)"
    by (cases "resolveEach (take mx (relationIds prop)) [] w")
  note step' = ignoresQueryD [OF resolveEach_ignoresQuery step, of g]
  show "resolveRelationNames prop mx (w\<lparr>notion_query := g\<rparr>) =
          (fst (resolveRelationNames prop mx w), (snd (resolveRelationNames prop mx w))\<lparr>notion_query := g\<rparr>)"
    using step step' by (cases r) (simp_all add: resolveRelationNames_def Let_def)
qed

lemma collectItems_ignoresQuery: "ignoresQuery (collectItems pages items)"
proof (induction pages arbitrary: items)
  case Nil
  show ?case by (simp add: ignoresQuery_def)
next
  case (Cons p rest)
  show ?case
    unfolding ignoresQuery_def
  proof (intro allI)
    fix w g
    show "collectItems (p # rest) items (w\<lparr>notion_query := g\<rparr>) =
            (fst (collectItems (p # rest) items w),
             (snd (collectItems (p # rest) items w))\<lparr>notion_query := g\<rparr>)"
    proof (cases "dateStart (getProp p ''Date'')")
      case None
      then show ?thesis using Cons.IH [of items] by (simp add: ignoresQuery_def)
    next
      case (Some ds)
      obtain r1 w1 where s1: "resolveRelationNames (getProp p ''Artist'') 2 w = (r1, w1)"
        by (cases "resolveRelationNames (getProp p ''Artist'') 2 w")
      obtain r2 w2 where s2: "resolveRelationNames (getProp p ''Member'') 2 w1 = (r2, w2)"
        by (cases "resolveRelationNames (getProp p ''Member'') 2 w1")
      note s1' = ignoresQueryD [OF resolveRelationNames_ignoresQuery s1, of g]
      note s2' = ignoresQueryD [OF resolveRelationNames_ignoresQuery s2, of g]
      show ?thesis
      proof (cases r1)
        case (Inl e)
        then show ?thesis using Some s1 s1' by (simp add: Let_def)
      next
        case a: (Inr artistNames)
        show ?thesis
        proof (cases r2)
          case (Inl e)
          then show ?thesis using Some s1 s1' s2 s2' a by (simp add: Let_def)
        next
          case (Inr memberNames)
          then show ?thesis using Some s1 s1' s2 s2' a Cons.IH
            by (simp add: Let_def ignoresQuery_def)
        qed
      qed
    qed
  qed
qed

subsection \<open>C7: records without a date are dropped\<close>

lemma collectItems_filter:
  "collectItems (filter hasDate pages) items w = collectItems pages items w"
proof (induction pages arbitrary: items w)
  case Nil
  show ?case by simp
next
  case (Cons p rest)
  show ?case
  proof (cases "dateStart (getProp p ''Date'')")
    case None
    then show ?thesis using Cons.IH by (simp add: hasDate_def)
  next
    case (Some ds)
    then have "hasDate p" by (simp add: hasDate_def)
    then show ?thesis using Some Cons.IH
      by (simp add: Let_def split: prod.splits sum.splits)
  qed
qed

lemma notionRequest_mapBody:
  "notionRequest (mapBody f res) = map_sum id f (notionRequest res)"
  by (cases res) (simp_all add: notionRequest_def mapBody_def)

lemma queryNotionForMonth_cases:
  obtains
    (invalid)
      "fst (monthStartEnd (host w) key) = None \<or> snd (monthStartEnd (host w) key) = None"
      "queryNotionForMonth db key w = (Inl RangeError, w\<lparr>pageTitleCache := Map.empty\<rparr>)"
  | (refused) s e err where
      "monthStartEnd (host w) key = (Some s, Some e)"
      "notionRequest (notion_query w db (monthQuery s e)) = Inl err"
      "queryNotionForMonth db key w = (Inl err, afterQuery db (monthQuery s e) w)"
  | (answered) s e results where
      "monthStartEnd (host w) key = (Some s, Some e)"
      "notionRequest (notion_query w db (monthQuery s e)) = Inr results"
      "queryNotionForMonth db key w =
         (case collectItems results [] (afterQuery db (monthQuery s e) w) of
            (Inl err, w2) \<Rightarrow> (Inl err, w2)
          | (Inr items, w2) \<Rightarrow> (Inr (sortWith compareDates items), w2))"
proof -
  obtain start end' where se: "monthStartEnd (host w) key = (start, end')"
    by (cases "monthStartEnd (host w) key")
  show ?thesis
  proof (cases start)
    case None
    then show ?thesis using se invalid
      by (simp add: queryNotionForMonth_def toISOString_def Let_def)
  next
    case s: (Some startT)
    show ?thesis
    proof (cases end')
      case None
      then show ?thesis using se s invalid
        by (simp add: queryNotionForMonth_def toISOString_def Let_def)
    next
      case e: (Some endT)
      show ?thesis
      proof (cases "notionRequest (notion_query w db (monthQuery startT endT))")
        case (Inl err)
        show ?thesis
          by (rule refused [of startT endT err])
             (use se s e Inl in \<open>simp_all add: queryNotionForMonth_def toISOString_def
                 notionDbQuery_def Let_def afterQuery_def\<close>)
      next
        case (Inr results)
        show ?thesis
          by (rule answered [of startT endT results])
             (use se s e Inr in \<open>simp_all add: queryNotionForMonth_def toISOString_def
                 notionDbQuery_def Let_def afterQuery_def\<close>)
      qed
    qed
  qed
qed

lemma afterQuery_quiet: "quiet w (afterQuery db q w)"
  by (simp add: quiet_def afterQuery_def isNotion_def)

lemma queryNotionForMonth_quiet: "quiet w (snd (queryNotionForMonth db key w))"
proof (cases rule: queryNotionForMonth_cases [where db = db and key = key and w = w])
  case invalid
  then show ?thesis by (simp add: quiet_def)
next
  case (refused s e err)
  then show ?thesis by (simp add: afterQuery_quiet)
next
  case (answered s e results)
  have "quiet w (snd (collectItems results [] (afterQuery db (monthQuery s e) w)))"
    using quiet_trans [OF afterQuery_quiet collectItems_quiet] .
  then show ?thesis using answered(3)
    by (auto split: prod.splits sum.splits)
qed

lemma queryNotionForMonth_filtered:
  fixes w :: world
  defines "g \<equiv> (\<lambda>d q. mapBody (filter hasDate) (notion_query w d q))"
  shows "queryNotionForMonth db key (w\<lparr>notion_query := g\<rparr>) =
     (fst (queryNotionForMonth db key w), (snd (queryNotionForMonth db key w))\<lparr>notion_query := g\<rparr>)"
proof (cases rule: queryNotionForMonth_cases [where db = db and key = key and w = w])
  case invalid
  then show ?thesis
    by (cases rule: queryNotionForMonth_cases [where db = db and key = key and w = "w\<lparr>notion_query := g\<rparr>"]) auto
next
  case (refused s e err)
  have "notionRequest (g db (monthQuery s e)) = Inl err"
    using refused(2) by (simp add: g_def notionRequest_mapBody)
  then show ?thesis using refused
    by (cases rule: queryNotionForMonth_cases [where db = db and key = key and w = "w\<lparr>notion_query := g\<rparr>"])
       (simp_all add: afterQuery_def)
next
  case (answered s e results)
  let ?w1 = "afterQuery db (monthQuery s e) w"
  have res: "notionRequest (g db (monthQuery s e)) = Inr (filter hasDate results)"
    using answered(2) by (simp add: g_def notionRequest_mapBody)
  have w1: "afterQuery db (monthQuery s e) (w\<lparr>notion_query := g\<rparr>) = ?w1\<lparr>notion_query := g\<rparr>"
    by (simp add: afterQuery_def)
  obtain r w2 where col: "collectItems results [] ?w1 = (r, w2)"
    by (cases "collectItems results [] ?w1")
  have col': "collectItems (filter hasDate results) [] (?w1\<lparr>notion_query := g\<rparr>)
                = (r, w2\<lparr>notion_query := g\<rparr>)"
    using ignoresQueryD [OF collectItems_ignoresQuery col, of g]
    by (simp add: collectItems_filter)
  show ?thesis
  proof (cases rule: queryNotionForMonth_cases [where db = db and key = key and w = "w\<lparr>notion_query := g\<rparr>"])
    case invalid
    then show ?thesis using answered(1) by simp
  next
    case (refused s' e' err)
    then show ?thesis using answered(1) res by simp
  next
    case b: (answered s' e' results')
    then have "s' = s" "e' = e" "results' = filter hasDate results"
      using answered(1) res by simp_all
    then show ?thesis using b(3) answered(3) col col' w1
      by (cases r) simp_all
  qed
qed

lemma withoutDateless_quiet:
  "quiet w w' \<Longrightarrow>
     withoutDateless w' = w'\<lparr>notion_query := (\<lambda>d q. mapBody (filter hasDate) (notion_query w d q))\<rparr>"
  by (simp add: withoutDateless_def quiet_def)

lemma queryNotionForMonth_withoutDateless:
  "queryNotionForMonth db key (withoutDateless w) =
     (fst (queryNotionForMonth db key w), withoutDateless (snd (queryNotionForMonth db key w)))"
  using queryNotionForMonth_filtered [of db key w]
        withoutDateless_quiet [OF queryNotionForMonth_quiet [of w db key]]
  by (simp add: withoutDateless_def)

lemma channelsFetch_ignoresQuery: "ignoresQuery (channelsFetch tid)"
  by (simp add: ignoresQuery_def channelsFetch_def)

lemma messagesFetch_ignoresQuery: "ignoresQuery (messagesFetch tid mid)"
  by (simp add: ignoresQuery_def messagesFetch_def liveThread_def)

lemma send_ignoresQuery: "ignoresQuery (send tid text)"
  by (auto simp: ignoresQuery_def send_def liveThread_def Let_def split: option.splits sum.splits)

lemma edit_ignoresQuery: "ignoresQuery (edit tid mid payload)"
  by (auto simp: ignoresQuery_def edit_def liveThread_def Let_def split: option.splits sum.splits)

lemma ensureScheduleMessage_ignoresQuery: "ignoresQuery (ensureScheduleMessage tid metaKey)"
  unfolding ignoresQuery_def
proof (intro allI)
  fix w g
  let ?mid = "case loadMetaAll w metaKey of None \<Rightarrow> [] | Some entry \<Rightarrow> messageId entry"
  let ?att = "if truthy ?mid then messagesFetch tid ?mid w else (Inl (DiscordError []), w)"
  obtain a w1 where att: "?att = (a, w1)" by (cases ?att)
  have att': "(if truthy ?mid then messagesFetch tid ?mid (w\<lparr>notion_query := g\<rparr>)
               else (Inl (DiscordError []), w\<lparr>notion_query := g\<rparr>)) = (a, w1\<lparr>notion_query := g\<rparr>)"
    using att ignoresQueryD [OF messagesFetch_ignoresQuery, of tid ?mid w a w1 g]
    by (auto split: if_splits)
  have lm: "loadMetaAll (w\<lparr>notion_query := g\<rparr>) = loadMetaAll w"
    by (simp add: loadMetaAll_def)
  obtain r w2 where snd: "send tid (''Initializing schedule'' @ ellipsis) w1 = (r, w2)"
    by (cases "send tid (''Initializing schedule'' @ ellipsis) w1")
  note snd' = ignoresQueryD [OF send_ignoresQuery snd, of g]
  show "ensureScheduleMessage tid metaKey (w\<lparr>notion_query := g\<rparr>) =
          (fst (ensureScheduleMessage tid metaKey w),
           (snd (ensureScheduleMessage tid metaKey w))\<lparr>notion_query := g\<rparr>)"
    using att att' snd snd'
    by (cases a; cases r) (simp_all add: ensureScheduleMessage_def lm Let_def saveMetaAll_def)
qed

lemma publishSchedule_unfold:
  "truthy tid \<Longrightarrow>
     publishSchedule (Some tid) db key metaKey tzLabel w =
       (case queryNotionForMonth db key w of
          (Inl e, w1) \<Rightarrow> (Inl e, w1)
        | (Inr events, w1) \<Rightarrow> publishEvents tid key metaKey tzLabel events w1)"
  by (simp add: publishSchedule_def publishEvents_def split: prod.splits sum.splits)

lemma ensureScheduleMessage_notion:
  "notion_query (snd (ensureScheduleMessage tid metaKey w)) = notion_query w"
  by (auto simp: ensureScheduleMessage_def messagesFetch_def send_def saveMetaAll_def Let_def
           split: prod.splits sum.splits option.splits if_splits)

lemma edit_notion: "notion_query (snd (edit tid mid payload w)) = notion_query w"
  by (auto simp: edit_def Let_def split: option.splits)

lemma publishEvents_cases:
  obtains
    (unreachable) e where
      "channels w tid = Inl e"
      "publishEvents tid key metaKey tzLabel events w = (Inl e, afterChannelFetch tid w)"
  | (missing)
      "channels w tid = Inr None"
      "publishEvents tid key metaKey tzLabel events w =
         (Inl (ThreadNotFound tid), afterChannelFetch tid w)"
  | (live) th where
      "channels w tid = Inr (Some th)"
      "publishEvents tid key metaKey tzLabel events w =
         (case ensureScheduleMessage tid metaKey (afterChannelFetch tid w) of
            (Inl e, w3) \<Rightarrow> (Inl e, w3)
          | (Inr msg, w3) \<Rightarrow>
              (case buildEmbed (host w3) key events tzLabel of
                 Inl e \<Rightarrow> (Inl e, w3)
               | Inr emb \<Rightarrow>
                   (case edit tid msg \<lparr>content = [], embeds = [emb]\<rparr> w3 of
                      (Inl e, w4) \<Rightarrow> (Inl e, w4)
                    | (Inr _, w4) \<Rightarrow> (Inr (length events), w4))))"
proof (cases "channels w tid")
  case (Inl e)
  show ?thesis
    by (rule unreachable [of e])
       (use Inl in \<open>simp_all add: publishEvents_def channelsFetch_def afterChannelFetch_def\<close>)
next
  case (Inr h)
  show ?thesis
  proof (cases h)
    case None
    show ?thesis
      by (rule missing)
         (use Inr None in \<open>simp_all add: publishEvents_def channelsFetch_def afterChannelFetch_def\<close>)
  next
    case (Some th)
    show ?thesis
      by (rule live [of th])
         (use Inr Some in \<open>simp_all add: publishEvents_def channelsFetch_def afterChannelFetch_def\<close>)
  qed
qed

lemma publishEvents_notion:
  "notion_query (snd (publishEvents tid key metaKey tzLabel events w)) = notion_query w"
proof (cases rule: publishEvents_cases [where w = w and tid = tid and key = key
          and metaKey = metaKey and tzLabel = tzLabel and events = events])
  case (unreachable e)
  then show ?thesis by (simp add: afterChannelFetch_def)
next
  case missing
  then show ?thesis by (simp add: afterChannelFetch_def)
next
  case (live th)
  let ?w2 = "afterChannelFetch tid w"
  obtain m w3 where en: "ensureScheduleMessage tid metaKey ?w2 = (m, w3)"
    by (cases "ensureScheduleMessage tid metaKey ?w2")
  have n3: "notion_query w3 = notion_query w"
    using ensureScheduleMessage_notion [of tid metaKey ?w2] en by (simp add: afterChannelFetch_def)
  have "notion_query w4 = notion_query w" if "edit tid mid payload w3 = (r, w4)"
    for mid payload r w4
    using edit_notion [of tid mid payload w3] n3 that by simp
  then show ?thesis using live(2) en n3
    by (auto split: sum.splits prod.splits)
qed

lemma ensureScheduleMessage_host: "host (snd (ensureScheduleMessage tid metaKey w)) = host w"
  by (auto simp: ensureScheduleMessage_def messagesFetch_def send_def saveMetaAll_def Let_def
           split: prod.splits sum.splits option.splits if_splits)

lemma publishEvents_ignoresQuery: "ignoresQuery (publishEvents tid key metaKey tzLabel events)"
  unfolding ignoresQuery_def
proof (intro allI)
  fix w g
  obtain c w2 where cf: "channelsFetch tid w = (c, w2)" by (cases "channelsFetch tid w")
  note cf' = ignoresQueryD [OF channelsFetch_ignoresQuery cf, of g]
  show "publishEvents tid key metaKey tzLabel events (w\<lparr>notion_query := g\<rparr>) =
          (fst (publishEvents tid key metaKey tzLabel events w),
           (snd (publishEvents tid key metaKey tzLabel events w))\<lparr>notion_query := g\<rparr>)"
  proof (cases c)
    case (Inl e)
    then show ?thesis using cf cf' by (simp add: publishEvents_def)
  next
    case (Inr h)
    show ?thesis
    proof (cases h)
      case None
      then show ?thesis using Inr cf cf' by (simp add: publishEvents_def)
    next
      case (Some thread)
      obtain m w3 where en: "ensureScheduleMessage thread metaKey w2 = (m, w3)"
        by (cases "ensureScheduleMessage thread metaKey w2")
      note en' = ignoresQueryD [OF ensureScheduleMessage_ignoresQuery en, of g]
      show ?thesis
      proof (cases m)
        case (Inl e)
        then show ?thesis using Inr Some cf cf' en en' by (simp add: publishEvents_def)
      next
        case msg: (Inr msg)
        show ?thesis
        proof (cases "buildEmbed (host w3) key events tzLabel")
          case (Inl e)
          then show ?thesis using Inr Some msg cf cf' en en' by (simp add: publishEvents_def)
        next
          case emb: (Inr emb)
          obtain r w4 where ed: "edit thread msg \<lparr>content = [], embeds = [emb]\<rparr> w3 = (r, w4)"
            by (cases "edit thread msg \<lparr>content = [], embeds = [emb]\<rparr> w3")
          note ed' = ignoresQueryD [OF edit_ignoresQuery ed, of g]
          show ?thesis using Inr Some msg emb cf cf' en en' ed ed'
            by (cases r) (simp_all add: publishEvents_def)
        qed
      qed
    qed
  qed
qed

lemma collectItems_length:
  "collectItems pages items w = (Inr out, w') \<Longrightarrow>
     length out = length items + length (filter hasDate pages)"
proof (induction pages arbitrary: items w)
  case Nil
  then show ?case by simp
next
  case (Cons p rest)
  show ?case
  proof (cases "dateStart (getProp p ''Date'')")
    case None
    with Cons.prems have "collectItems rest items w = (Inr out, w')" by simp
    from Cons.IH [OF this] None show ?thesis by (simp add: hasDate_def)
  next
    case (Some ds)
    from Cons.prems Some obtain new w2 where
      "collectItems rest (items @ [new]) w2 = (Inr out, w')"
      by (auto simp: Let_def split: prod.splits sum.splits)
    from Cons.IH [OF this] Some show ?thesis by (simp add: hasDate_def)
  qed
qed

text \<open>
  Claim C7. A page without a usable date has no part in the outcome: the query and the
  whole publication end with the same result and leave the same world (the same requests
  in the log, the same cache, the same message and its content, the same message record)
  as if the database had not returned the page, so the page is in neither the returned
  sequence nor the rendered body nor the published message, no error is raised for it
  and the remaining pages are processed. The returned sequence has exactly as many
  records as the response has pages with a usable date.
\<close>

theorem dateless_records_dropped:
  "queryNotionForMonth db key (withoutDateless w) =
     (fst (queryNotionForMonth db key w), withoutDateless (snd (queryNotionForMonth db key w))) \<and>
   publishSchedule threadId db key metaKey tzLabel (withoutDateless w) =
     (fst (publishSchedule threadId db key metaKey tzLabel w),
      withoutDateless (snd (publishSchedule threadId db key metaKey tzLabel w))) \<and>
   (\<forall>items. fst (queryNotionForMonth db key w) = Inr items \<longrightarrow>
      (\<exists>s e results.
         monthStartEnd (host w) key = (Some s, Some e) \<and>
         notionRequest (notion_query w db (monthQuery s e)) = Inr results \<and>
         length items = length (filter hasDate results)))"
proof (intro conjI allI impI)
  fix items assume "fst (queryNotionForMonth db key w) = Inr items"
  from queryNotionForMonth_items [OF this] obtain s e results raw w' where
    "monthStartEnd (host w) key = (Some s, Some e)"
    "notionRequest (notion_query w db (monthQuery s e)) = Inr results"
    "collectItems results []
       (w\<lparr>pageTitleCache := Map.empty, log := log w @ [DbQuery db (monthQuery s e)]\<rparr>)
       = (Inr raw, w')"
    "items = sortWith compareDates raw" by blast
  then show "\<exists>s e results.
         monthStartEnd (host w) key = (Some s, Some e) \<and>
         notionRequest (notion_query w db (monthQuery s e)) = Inr results \<and>
         length items = length (filter hasDate results)"
    using collectItems_length [of results "[]" _ raw w'] by (auto simp: length_sortWith)
next
  show q: "queryNotionForMonth db key (withoutDateless w) =
     (fst (queryNotionForMonth db key w), withoutDateless (snd (queryNotionForMonth db key w)))"
    by (rule queryNotionForMonth_withoutDateless)
  let ?g = "\<lambda>d q. mapBody (filter hasDate) (notion_query w d q)"
  obtain r0 w1 where run: "queryNotionForMonth db key w = (r0, w1)"
    by (cases "queryNotionForMonth db key w")
  have q1: "quiet w w1" using queryNotionForMonth_quiet [of w db key] run by simp
  have run': "queryNotionForMonth db key (withoutDateless w) = (r0, w1\<lparr>notion_query := ?g\<rparr>)"
    using q run withoutDateless_quiet [OF q1] by simp
  show "publishSchedule threadId db key metaKey tzLabel (withoutDateless w) =
     (fst (publishSchedule threadId db key metaKey tzLabel w),
      withoutDateless (snd (publishSchedule threadId db key metaKey tzLabel w)))"
  proof (cases "\<exists>tid. threadId = Some tid \<and> truthy tid")
    case False
    then show ?thesis by (cases threadId) (simp_all add: publishSchedule_def)
  next
    case True
    then obtain tid where tid: "threadId = Some tid" "truthy tid" by blast
    show ?thesis
    proof (cases r0)
      case (Inl e)
      then show ?thesis using tid run run' withoutDateless_quiet [OF q1]
        by (simp add: publishSchedule_unfold)
    next
      case (Inr events)
      obtain r w5 where pe: "publishEvents tid key metaKey tzLabel events w1 = (r, w5)"
        by (cases "publishEvents tid key metaKey tzLabel events w1")
      note pe' = ignoresQueryD [OF publishEvents_ignoresQuery pe, of ?g]
      have "notion_query w5 = notion_query w1"
        using publishEvents_notion [of tid key metaKey tzLabel events w1] pe by simp
      then have "withoutDateless w5 = w5\<lparr>notion_query := ?g\<rparr>"
        using q1 by (simp add: withoutDateless_def quiet_def)
      then show ?thesis using tid run run' Inr pe pe'
        by (simp add: publishSchedule_unfold)
    qed
  qed
qed

theorem dateless_records_dropped_witness:
  "notionRequest (notion_query demo_world ''db1'' (monthQuery 1769871600000 1772290800000))
     = Inr (take 3 demo_pages) \<and>
   filter hasDate (take 3 demo_pages) = take 2 demo_pages \<and>
   fst (queryNotionForMonth ''db1'' (2026, 2) demo_world) = Inr [demo_release, demo_showcase] \<and>
   fst (queryNotionForMonth ''db1'' (2026, 2) (withoutDateless demo_world))
     = Inr [demo_release, demo_showcase]"
proof -
  have r: "notionRequest (notion_query demo_world ''db1'' (monthQuery 1769871600000 1772290800000))
     = Inr (take 3 demo_pages)" by code_simp
  have f: "filter hasDate (take 3 demo_pages) = take 2 demo_pages" by code_simp
  from dateless_records_dropped [of "''db1''" "(2026, 2)" demo_world "Some ''T1''"
         "''G1:thisMonth''" "''KST''"]
  show ?thesis using r f demo_query by simp
qed

subsection \<open>C9: one cache per query, one request per page\<close>

lemma fetched_append: "fetched (xs @ ys) = fetched xs @ fetched ys"
  by (simp add: fetched_def)

lemma cached_once: "cached n w \<Longrightarrow> once n w"
  by (simp add: cached_def once_def)

lemma getPageTitleCached_once:
  assumes "cached n w" and "getPageTitleCached pid w = (r, w')"
  shows "once n w' \<and> (\<forall>t. r = Inr t \<longrightarrow> cached n w')"
proof (cases "pageTitleCache w pid")
  case (Some t)
  then show ?thesis using assms by (simp add: getPageTitleCached_def cached_once)
next
  case None
  then have new: "pid \<notin> set (fetched (drop n (log w)))"
    using assms(1) by (auto simp: cached_def)
  have l: "drop n (log w @ [GetPage pid]) = drop n (log w) @ [GetPage pid]"
    using assms(1) by (simp add: cached_def)
  have f: "fetched (drop n (log w @ [GetPage pid])) = fetched (drop n (log w)) @ [pid]"
    unfolding l fetched_append by (simp add: fetched_def)
  show ?thesis
  proof (cases "notionRequest (notion_page w pid)")
    case (Inl e)
    then show ?thesis using None assms new f
      by (auto simp: getPageTitleCached_def notionGetPage_def once_def cached_def)
  next
    case (Inr page)
    then show ?thesis using None assms new f
      by (auto simp: getPageTitleCached_def notionGetPage_def once_def cached_def Let_def)
  qed
qed

lemma resolveEach_once:
  "cached n w \<Longrightarrow> resolveEach ids names w = (r, w') \<Longrightarrow>
     once n w' \<and> (\<forall>out. r = Inr out \<longrightarrow> cached n w')"
proof (induction ids arbitrary: names w)
  case Nil
  then show ?case by (auto simp: cached_once)
next
  case (Cons pid rest)
  obtain r1 w1 where step: "getPageTitleCached pid w = (r1, w1)"
    by (cases "getPageTitleCached pid w")
  note s = getPageTitleCached_once [OF Cons.prems(1) step]
  show ?case
  proof (cases r1)
    case (Inl e)
    then show ?thesis using Cons.prems(2) step s by auto
  next
    case (Inr t)
    then have c1: "cached n w1" using s by simp
    from Cons.prems(2) step Inr
    have "resolveEach rest (if truthy t then names @ [t] else names) w1 = (r, w')" by simp
    from Cons.IH [OF c1 this] show ?thesis .
  qed
qed

lemma resolveRelationNames_once:
  assumes "cached n w" and "resolveRelationNames prop mx w = (r, w')"
  shows "once n w' \<and> (\<forall>out. r = Inr out \<longrightarrow> cached n w')"
proof (cases "relationIds prop = []")
  case True
  then show ?thesis using assms by (auto simp: resolveRelationNames_def cached_once)
next
  case False
  obtain r1 w1 where step: "resolveEach (take mx (relationIds prop)) [] w = (r1, w1)"
    by (cases "resolveEach (take mx (relationIds prop)) [] w")
  note s = resolveEach_once [OF assms(1) step]
  show ?thesis using False assms(2) step s
    by (cases r1) (auto simp: resolveRelationNames_def Let_def)
qed

lemma collectItems_once:
  "cached n w \<Longrightarrow> collectItems pages items w = (r, w') \<Longrightarrow> once n w'"
proof (induction pages arbitrary: items w)
  case Nil
  then show ?case by (auto simp: cached_once)
next
  case (Cons p rest)
  show ?case
  proof (cases "dateStart (getProp p ''Date'')")
    case None
    with Cons.prems(2) have "collectItems rest items w = (r, w')" by simp
    from Cons.IH [OF Cons.prems(1) this] show ?thesis .
  next
    case (Some ds)
    obtain r1 w1 where s1: "resolveRelationNames (getProp p ''Artist'') 2 w = (r1, w1)"
      by (cases "resolveRelationNames (getProp p ''Artist'') 2 w")
    obtain r2 w2 where s2: "resolveRelationNames (getProp p ''Member'') 2 w1 = (r2, w2)"
      by (cases "resolveRelationNames (getProp p ''Member'') 2 w1")
    note o1 = resolveRelationNames_once [OF Cons.prems(1) s1]
    show ?thesis
    proof (cases r1)
      case (Inl e)
      then show ?thesis using Cons.prems(2) Some s1 o1 by (auto simp: Let_def)
    next
      case a: (Inr artistNames)
      then have c1: "cached n w1" using o1 by simp
      note o2 = resolveRelationNames_once [OF c1 s2]
      show ?thesis
      proof (cases r2)
        case (Inl e)
        then show ?thesis using Cons.prems(2) Some s1 s2 a o2 by (auto simp: Let_def)
      next
        case (Inr memberNames)
        then have c2: "cached n w2" using o2 by simp
        from Cons.prems(2) Some s1 s2 a Inr obtain items' where
          "collectItems rest items' w2 = (r, w')" by (auto simp: Let_def)
        from Cons.IH [OF c2 this] show ?thesis .
      qed
    qed
  qed
qed

lemma afterQuery_cached: "cached (length (log w)) (afterQuery db q w)"
  by (simp add: cached_def afterQuery_def fetched_def)

text \<open>
  Claim C9. The title cache is cleared at the start of every \<open>queryNotionForMonth\<close> call:
  whatever the cache holds when the call begins, the call runs as from the empty cache.
  Within one call the get-by-id requests sent (the \<open>GetPage\<close> events the call adds to the
  log) are for pairwise different page ids, however often and in whichever relation
  fields an id occurs.
\<close>

theorem queryNotionForMonth_cache:
  "queryNotionForMonth db key (w\<lparr>pageTitleCache := c\<rparr>) =
     queryNotionForMonth db key (w\<lparr>pageTitleCache := Map.empty\<rparr>) \<and>
   take (length (log w)) (log (snd (queryNotionForMonth db key w))) = log w \<and>
   distinct (fetched (drop (length (log w)) (log (snd (queryNotionForMonth db key w)))))"
proof (intro conjI)
  show "queryNotionForMonth db key (w\<lparr>pageTitleCache := c\<rparr>) =
     queryNotionForMonth db key (w\<lparr>pageTitleCache := Map.empty\<rparr>)"
    by (simp add: queryNotionForMonth_def)
  show "take (length (log w)) (log (snd (queryNotionForMonth db key w))) = log w"
    using queryNotionForMonth_quiet [of w db key] by (auto simp: quiet_def)
  have "once (length (log w)) (snd (queryNotionForMonth db key w))"
  proof (cases rule: queryNotionForMonth_cases [where db = db and key = key and w = w])
    case invalid
    then show ?thesis by (simp add: once_def fetched_def)
  next
    case (refused s e err)
    then show ?thesis using cached_once [OF afterQuery_cached] by simp
  next
    case (answered s e results)
    obtain r w2 where col: "collectItems results [] (afterQuery db (monthQuery s e) w) = (r, w2)"
      by (cases "collectItems results [] (afterQuery db (monthQuery s e) w)")
    from collectItems_once [OF afterQuery_cached col] show ?thesis
      using answered(3) col by (cases r) simp_all
  qed
  then show "distinct (fetched (drop (length (log w)) (log (snd (queryNotionForMonth db key w)))))"
    by (simp add: once_def)
qed

lemma demo_fetches:
  "fetched (log (snd (queryNotionForMonth ''db1'' (2026, 2) demo_world))) = [''a1'', ''a2'']"
  by code_simp

subsection \<open>The persistent message\<close>

lemma ensureScheduleMessage_found:
  assumes "truthy (storedId w mk)" and "fetchable w tid (storedId w mk)"
  shows "ensureScheduleMessage tid mk w =
           (Inr (storedId w mk), w\<lparr>log := log w @ [MessageFetch tid (storedId w mk)]\<rparr>)"
  using assms
  by (auto simp: ensureScheduleMessage_def storedId_def fetchable_def messagesFetch_def Let_def
           split: option.splits)

lemma ensureScheduleMessage_created:
  assumes "\<not> (truthy (storedId w mk) \<and> fetchable w tid (storedId w mk))"
      and "liveThread w tid = Some th" and "writable th"
  shows "ensureScheduleMessage tid mk w =
           (Inr (dec (snowflake w)),
            w\<lparr>log := log w @ (if truthy (storedId w mk) then [MessageFetch tid (storedId w mk)] else [])
                          @ [Send tid placeholder, SaveMeta],
              channels := (channels w)(tid := Inr (Some (th\<lparr>messages :=
                 (messages th)(dec (snowflake w) \<mapsto> \<lparr>content = placeholder, embeds = []\<rparr>)\<rparr>))),
              snowflake := Suc (snowflake w),
              meta_file := Some (assign (loadMetaAll w) mk \<lparr>messageId = dec (snowflake w)\<rparr>)\<rparr>)"
  using assms
  by (auto simp: ensureScheduleMessage_def storedId_def fetchable_def messagesFetch_def Let_def
                 send_def saveMetaAll_def liveThread_def placeholder_def
           split: option.splits)

lemma ensureScheduleMessage_failed:
  assumes "\<not> (truthy (storedId w mk) \<and> fetchable w tid (storedId w mk))"
      and "\<not> (\<exists>th. liveThread w tid = Some th \<and> writable th)"
  shows "\<exists>e. ensureScheduleMessage tid mk w =
           (Inl e,
            w\<lparr>log := log w @ (if truthy (storedId w mk) then [MessageFetch tid (storedId w mk)] else [])
                          @ [Send tid placeholder]\<rparr>)"
  using assms
  by (auto simp: ensureScheduleMessage_def storedId_def fetchable_def messagesFetch_def Let_def
                 send_def saveMetaAll_def liveThread_def placeholder_def
           split: option.splits sum.splits)

lemma edit_done:
  assumes "liveThread w tid = Some th" and "writable th" and "messages th mid \<noteq> None"
  shows "edit tid mid p w =
           (Inr (), w\<lparr>log := log w @ [Edit tid mid p],
                      channels := (channels w)(tid := Inr (Some (th\<lparr>messages := (messages th)(mid \<mapsto> p)\<rparr>)))\<rparr>)"
  using assms by (auto simp: edit_def Let_def)

lemma edit_refused:
  assumes "\<not> (\<exists>th. liveThread w tid = Some th \<and> writable th \<and> messages th mid \<noteq> None)"
  shows "\<exists>e. edit tid mid p w = (Inl e, w\<lparr>log := log w @ [Edit tid mid p]\<rparr>)"
  using assms by (auto simp: edit_def Let_def split: option.splits)

lemma liveThread_channels:
  "liveThread w tid = Some th \<longleftrightarrow> channels w tid = Inr (Some th)"
  by (auto simp: liveThread_def split: sum.splits option.splits)

text \<open>The publication after the query, when the stored message can be fetched.\<close>

lemma publishEvents_found:
  assumes live: "liveThread w tid = Some th"
      and sid: "truthy (storedId w mk)" and mem: "messages th (storedId w mk) \<noteq> None"
      and emb: "buildEmbed (host w) key events tz = Inr emb"
      and wr: "writable th"
  shows "publishEvents tid key mk tz events w =
           (Inr (length events),
            w\<lparr>log := log w @ [ChannelFetch tid, MessageFetch tid (storedId w mk),
                               Edit tid (storedId w mk) (shown emb)],
              channels := (channels w)(tid := Inr (Some (th\<lparr>messages :=
                 (messages th)(storedId w mk \<mapsto> shown emb)\<rparr>)))\<rparr>)"
proof -
  let ?w2 = "w\<lparr>log := log w @ [ChannelFetch tid]\<rparr>"
  let ?sid = "storedId w mk"
  have ch: "channels w tid = Inr (Some th)" using live by (simp add: liveThread_channels)
  have s2: "storedId ?w2 mk = ?sid" by (simp add: storedId_def loadMetaAll_def)
  have l2: "liveThread ?w2 tid = Some th" using live by (simp add: liveThread_def)
  have f2: "fetchable ?w2 tid ?sid" using l2 mem by (simp add: fetchable_def)
  have en: "ensureScheduleMessage tid mk ?w2 = (Inr ?sid, ?w2\<lparr>log := log ?w2 @ [MessageFetch tid ?sid]\<rparr>)"
    using ensureScheduleMessage_found [of ?w2 mk tid] sid s2 f2 by simp
  let ?w3 = "?w2\<lparr>log := log ?w2 @ [MessageFetch tid ?sid]\<rparr>"
  have l3: "liveThread ?w3 tid = Some th" using live by (simp add: liveThread_def)
  have ed: "edit tid ?sid (shown emb) ?w3 =
              (Inr (), ?w3\<lparr>log := log ?w3 @ [Edit tid ?sid (shown emb)],
                 channels := (channels ?w3)(tid := Inr (Some (th\<lparr>messages := (messages th)(?sid \<mapsto> shown emb)\<rparr>)))\<rparr>)"
    by (rule edit_done [OF l3 wr mem])
  have "publishEvents tid key mk tz events w =
         (case ensureScheduleMessage tid mk (afterChannelFetch tid w) of
            (Inl e, w3) \<Rightarrow> (Inl e, w3)
          | (Inr msg, w3) \<Rightarrow>
              (case buildEmbed (host w3) key events tz of
                 Inl e \<Rightarrow> (Inl e, w3)
               | Inr emb \<Rightarrow>
                   (case edit tid msg \<lparr>content = [], embeds = [emb]\<rparr> w3 of
                      (Inl e, w4) \<Rightarrow> (Inl e, w4)
                    | (Inr _, w4) \<Rightarrow> (Inr (length events), w4))))"
    by (cases rule: publishEvents_cases [where w = w and tid = tid and key = key
          and metaKey = mk and tzLabel = tz and events = events]) (use ch in simp_all)
  then show ?thesis
    using en ed emb by (simp add: afterChannelFetch_def shown_def)
qed

text \<open>The publication after the query, when a new message has to be created.\<close>

lemma publishEvents_created:
  assumes live: "liveThread w tid = Some th"
      and nf: "\<not> (truthy (storedId w mk) \<and> messages th (storedId w mk) \<noteq> None)"
      and emb: "buildEmbed (host w) key events tz = Inr emb"
      and wr: "writable th"
  shows "publishEvents tid key mk tz events w =
           (Inr (length events),
            w\<lparr>log := log w @ [ChannelFetch tid]
                          @ (if truthy (storedId w mk) then [MessageFetch tid (storedId w mk)] else [])
                          @ [Send tid placeholder, SaveMeta, Edit tid (dec (snowflake w)) (shown emb)],
              channels := (channels w)(tid := Inr (Some (th\<lparr>messages :=
                 (messages th)(dec (snowflake w) \<mapsto> shown emb)\<rparr>))),
              snowflake := Suc (snowflake w),
              meta_file := Some (assign (loadMetaAll w) mk \<lparr>messageId = dec (snowflake w)\<rparr>)\<rparr>)"
proof -
  let ?w2 = "w\<lparr>log := log w @ [ChannelFetch tid]\<rparr>"
  let ?sid = "storedId w mk"
  let ?new = "dec (snowflake w)"
  let ?th' = "th\<lparr>messages := (messages th)(?new \<mapsto> \<lparr>content = placeholder, embeds = []\<rparr>)\<rparr>"
  define w3 where "w3 =
     ?w2\<lparr>log := log ?w2 @ (if truthy ?sid then [MessageFetch tid ?sid] else [])
                          @ [Send tid placeholder, SaveMeta],
         channels := (channels w)(tid := Inr (Some ?th')),
         snowflake := Suc (snowflake w),
         meta_file := Some (assign (loadMetaAll w) mk \<lparr>messageId = ?new\<rparr>)\<rparr>"
  have ch: "channels w tid = Inr (Some th)" using live by (simp add: liveThread_channels)
  have s2: "storedId ?w2 mk = ?sid" by (simp add: storedId_def loadMetaAll_def)
  have m2: "loadMetaAll ?w2 = loadMetaAll w" by (simp add: loadMetaAll_def)
  have l2: "liveThread ?w2 tid = Some th" using live by (simp add: liveThread_def)
  have f2: "\<not> (truthy (storedId ?w2 mk) \<and> fetchable ?w2 tid (storedId ?w2 mk))"
    using l2 nf s2 by (simp add: fetchable_def)
  have en: "ensureScheduleMessage tid mk ?w2 = (Inr ?new, w3)"
    using ensureScheduleMessage_created [OF f2 l2 wr] by (simp add: w3_def s2 m2)
  have l3: "liveThread w3 tid = Some ?th'"
    by (simp add: w3_def liveThread_def)
  have wr3: "writable ?th'" using wr by simp
  have mem3: "messages ?th' ?new \<noteq> None" by simp
  have h3: "host w3 = host w" by (simp add: w3_def)
  note ed = edit_done [OF l3 wr3 mem3, of "shown emb"]
  have "publishEvents tid key mk tz events w =
         (case ensureScheduleMessage tid mk (afterChannelFetch tid w) of
            (Inl e, w3) \<Rightarrow> (Inl e, w3)
          | (Inr msg, w3) \<Rightarrow>
              (case buildEmbed (host w3) key events tz of
                 Inl e \<Rightarrow> (Inl e, w3)
               | Inr emb \<Rightarrow>
                   (case edit tid msg \<lparr>content = [], embeds = [emb]\<rparr> w3 of
                      (Inl e, w4) \<Rightarrow> (Inl e, w4)
                    | (Inr _, w4) \<Rightarrow> (Inr (length events), w4))))"
    by (cases rule: publishEvents_cases [where w = w and tid = tid and key = key
          and metaKey = mk and tzLabel = tz and events = events]) (use ch in simp_all)
  then have "publishEvents tid key mk tz events w =
               (Inr (length events), snd (edit tid ?new (shown emb) w3))"
    using en emb h3 ed by (simp add: afterChannelFetch_def shown_def)
  then show ?thesis
    by (simp add: ed) (simp add: w3_def)
qed

lemma dec_truthy: "truthy (dec n)"
  by (subst dec.simps) (simp add: truthy_def)

lemma isNotion_no_side_effects:
  "list_all isNotion evs \<Longrightarrow> sent evs = [] \<and> edited evs = [] \<and> saves evs = 0"
  by (induction evs) (auto simp: sent_def edited_def saves_def isNotion_def split: event.splits)

lemma publishEvents_success:
  assumes "publishEvents tid key mk tz events w = (Inr n, w')"
  shows "\<exists>th emb. liveThread w tid = Some th \<and> writable th \<and>
           buildEmbed (host w) key events tz = Inr emb \<and> n = length events"
proof -
  let ?w2 = "w\<lparr>log := log w @ [ChannelFetch tid]\<rparr>"
  from assms obtain th where ch: "channels w tid = Inr (Some th)"
    and pe: "(case ensureScheduleMessage tid mk ?w2 of
            (Inl e, w3) \<Rightarrow> (Inl e, w3)
          | (Inr msg, w3) \<Rightarrow>
              (case buildEmbed (host w3) key events tz of
                 Inl e \<Rightarrow> (Inl e, w3)
               | Inr emb \<Rightarrow>
                   (case edit tid msg \<lparr>content = [], embeds = [emb]\<rparr> w3 of
                      (Inl e, w4) \<Rightarrow> (Inl e, w4)
                    | (Inr _, w4) \<Rightarrow> (Inr (length events), w4)))) = (Inr n, w')"
    by (cases rule: publishEvents_cases [where w = w and tid = tid and key = key
          and metaKey = mk and tzLabel = tz and events = events])
       (simp_all add: afterChannelFetch_def)
  then have live: "liveThread w tid = Some th" by (simp add: liveThread_channels)
  obtain m w3 where en: "ensureScheduleMessage tid mk ?w2 = (m, w3)"
    by (cases "ensureScheduleMessage tid mk ?w2")
  have h3: "host w3 = host w"
    using ensureScheduleMessage_host [of tid mk ?w2] en by simp
  from pe en obtain msg emb where m: "m = Inr msg"
    and emb: "buildEmbed (host w) key events tz = Inr emb"
    and ed: "edit tid msg \<lparr>content = [], embeds = [emb]\<rparr> w3 = (Inr (), w')"
    and n: "n = length events"
    by (auto simp: h3 split: sum.splits prod.splits)
  have l2: "liveThread ?w2 tid = Some th" using live by (simp add: liveThread_def)
  have wr: "writable th"
  proof (rule ccontr)
    assume nw: "\<not> writable th"
    show False
    proof (cases "truthy (storedId ?w2 mk) \<and> fetchable ?w2 tid (storedId ?w2 mk)")
      case True
      then have "w3 = ?w2\<lparr>log := log ?w2 @ [MessageFetch tid (storedId ?w2 mk)]\<rparr>"
        using ensureScheduleMessage_found [of ?w2 mk tid] en by simp
      then have "liveThread w3 tid = Some th" using live by (simp add: liveThread_def)
      then show False using ed nw by (auto simp: edit_def Let_def)
    next
      case False
      have "\<not> (\<exists>th. liveThread ?w2 tid = Some th \<and> writable th)" using l2 nw by simp
      from ensureScheduleMessage_failed [OF False this] en m show False by auto
    qed
  qed
  show ?thesis using live wr emb n by blast
qed

lemma publishEvents_progress:
  assumes "liveThread w tid = Some th" and "writable th"
      and "buildEmbed (host w) key events tz = Inr emb"
  shows "fst (publishEvents tid key mk tz events w) = Inr (length events)"
proof (cases "truthy (storedId w mk) \<and> messages th (storedId w mk) \<noteq> None")
  case True
  then show ?thesis using publishEvents_found [OF assms(1) _ _ assms(3) assms(2), of mk] by simp
next
  case False
  then show ?thesis using publishEvents_created [OF assms(1) False assms(3) assms(2)] by simp
qed

lemma sent_append: "sent (xs @ ys) = sent xs @ sent ys"
  by (simp add: sent_def)

lemma edited_append: "edited (xs @ ys) = edited xs @ edited ys"
  by (simp add: edited_def)

lemma saves_append: "saves (xs @ ys) = saves xs + saves ys"
  by (simp add: saves_def)

lemma quiet_views:
  assumes "quiet w wq"
  shows "storedId wq mk = storedId w mk" and "liveThread wq tid = liveThread w tid"
    and "loadMetaAll wq = loadMetaAll w" and "fetchable wq tid mid = fetchable w tid mid"
  using assms by (simp_all add: quiet_def storedId_def liveThread_def loadMetaAll_def fetchable_def)

lemma publishSchedule_success:
  assumes "truthy tid" and "publishSchedule (Some tid) db key mk tz w = (Inr n, w')"
  obtains events wq th emb evs where
    "queryNotionForMonth db key w = (Inr events, wq)" and "quiet w wq"
    and "log wq = log w @ evs" and "list_all isNotion evs"
    and "liveThread w tid = Some th" and "writable th"
    and "buildEmbed (host w) key events tz = Inr emb" and "n = length events"
    and "publishEvents tid key mk tz events wq = (Inr n, w')"
proof -
  obtain r wq where q: "queryNotionForMonth db key w = (r, wq)"
    by (cases "queryNotionForMonth db key w")
  have qu: "quiet w wq" using queryNotionForMonth_quiet [of w db key] q by simp
  then obtain evs where evs: "log wq = log w @ evs" "list_all isNotion evs"
    by (auto simp: quiet_def)
  from assms q obtain events where r: "r = Inr events"
    and pe: "publishEvents tid key mk tz events wq = (Inr n, w')"
    by (cases r) (simp_all add: publishSchedule_unfold)
  from publishEvents_success [OF pe] obtain th emb where
    "liveThread wq tid = Some th" "writable th"
    "buildEmbed (host wq) key events tz = Inr emb" "n = length events" by blast
  then have "liveThread w tid = Some th" "buildEmbed (host w) key events tz = Inr emb"
    using qu quiet_views(2) [OF qu, of tid] by (simp_all add: quiet_def)
  then show ?thesis
    using that [of events wq evs th emb] q r qu evs pe \<open>writable th\<close> \<open>n = length events\<close>
    by simp
qed

lemma publishSchedule_found:
  assumes tid: "truthy tid"
      and run: "publishSchedule (Some tid) db key mk tz w = (Inr n, w')"
      and th: "liveThread w tid = Some th"
      and sid: "truthy (storedId w mk)" and mem: "messages th (storedId w mk) \<noteq> None"
  shows "\<exists>events emb th'.
           fst (queryNotionForMonth db key w) = Inr events \<and>
           buildEmbed (host w) key events tz = Inr emb \<and> n = length events \<and>
           liveThread w' tid = Some th' \<and> writable th' \<and>
           messages th' (storedId w mk) = Some (shown emb) \<and>
           dom (messages th') = dom (messages th) \<and>
           storedId w' mk = storedId w mk \<and> meta_file w' = meta_file w \<and>
           sent (since w w') = [] \<and> saves (since w w') = 0 \<and>
           edited (since w w') = [(tid, storedId w mk)]"
proof -
  obtain events wq th0 emb evs where
    q: "queryNotionForMonth db key w = (Inr events, wq)" and qu: "quiet w wq"
    and l: "log wq = log w @ evs" and ev: "list_all isNotion evs"
    and th0: "liveThread w tid = Some th0" and wr: "writable th0"
    and emb: "buildEmbed (host w) key events tz = Inr emb" and n: "n = length events"
    and pe: "publishEvents tid key mk tz events wq = (Inr n, w')"
    by (rule publishSchedule_success [OF tid run])
  have same: "th0 = th" using th th0 by simp
  have h: "host wq = host w" "meta_file wq = meta_file w" "channels wq = channels w"
    using qu by (simp_all add: quiet_def)
  have lq: "liveThread wq tid = Some th" using th quiet_views(2) [OF qu, of tid] by simp
  have sq: "storedId wq mk = storedId w mk" by (rule quiet_views(1) [OF qu])
  have embq: "buildEmbed (host wq) key events tz = Inr emb" using emb h by simp
  have w': "w' = wq\<lparr>log := log wq @ [ChannelFetch tid, MessageFetch tid (storedId w mk),
                               Edit tid (storedId w mk) (shown emb)],
              channels := (channels wq)(tid := Inr (Some (th\<lparr>messages :=
                 (messages th)(storedId w mk \<mapsto> shown emb)\<rparr>)))\<rparr>"
    using publishEvents_found [OF lq _ _ embq, of mk] sid mem wr same pe sq by simp
  have since: "since w w' = evs @ [ChannelFetch tid, MessageFetch tid (storedId w mk),
                               Edit tid (storedId w mk) (shown emb)]"
    by (simp add: since_def w' l)
  note none = isNotion_no_side_effects [OF ev]
  have d: "dom ((messages th)(storedId w mk \<mapsto> shown emb)) = dom (messages th)"
    using mem by auto
  let ?th' = "th\<lparr>messages := (messages th)(storedId w mk \<mapsto> shown emb)\<rparr>"
  have a: "fst (queryNotionForMonth db key w) = Inr events" using q by simp
  have l': "liveThread w' tid = Some ?th'" by (simp add: w' liveThread_def)
  have wr': "writable ?th'" using wr same by simp
  have c: "messages ?th' (storedId w mk) = Some (shown emb)" by simp
  have d': "dom (messages ?th') = dom (messages th)" using d by simp
  have st: "storedId w' mk = storedId w mk" by (simp add: w' storedId_def loadMetaAll_def h)
  have mf: "meta_file w' = meta_file w" by (simp add: w' h)
  have se: "sent (since w w') = []"
    using none by (simp add: since sent_append) (simp add: sent_def)
  have sa: "saves (since w w') = 0"
    using none by (simp add: since saves_append) (simp add: saves_def)
  have ed: "edited (since w w') = [(tid, storedId w mk)]"
    using none by (simp add: since edited_append) (simp add: edited_def)
  show ?thesis
    by (intro exI [of _ events] exI [of _ emb] exI [of _ ?th'] conjI)
       (rule a emb n l' wr' c d' st mf se sa ed)+
qed

lemma assign_lookup:
  "mk \<noteq> ''__proto__'' \<Longrightarrow> assign m mk v mk = Some v"
  by (simp add: assign_def)

lemma assign_other: "k \<noteq> mk \<Longrightarrow> assign m mk v k = m k"
  by (simp add: assign_def)

lemma publishSchedule_created:
  assumes tid: "truthy tid" and mk: "mk \<noteq> ''__proto__''"
      and run: "publishSchedule (Some tid) db key mk tz w = (Inr n, w')"
      and th: "liveThread w tid = Some th"
      and nf: "\<not> (truthy (storedId w mk) \<and> messages th (storedId w mk) \<noteq> None)"
  shows "\<exists>events emb th'.
           fst (queryNotionForMonth db key w) = Inr events \<and>
           buildEmbed (host w) key events tz = Inr emb \<and> n = length events \<and>
           liveThread w' tid = Some th' \<and> writable th' \<and>
           messages th' (dec (snowflake w)) = Some (shown emb) \<and>
           storedId w' mk = dec (snowflake w) \<and>
           meta_file w' = Some (assign (loadMetaAll w) mk \<lparr>messageId = dec (snowflake w)\<rparr>) \<and>
           sent (since w w') = [(tid, placeholder)] \<and> saves (since w w') = 1 \<and>
           edited (since w w') = [(tid, dec (snowflake w))]"
proof -
  obtain events wq th0 emb evs where
    q: "queryNotionForMonth db key w = (Inr events, wq)" and qu: "quiet w wq"
    and l: "log wq = log w @ evs" and ev: "list_all isNotion evs"
    and th0: "liveThread w tid = Some th0" and wr: "writable th0"
    and emb: "buildEmbed (host w) key events tz = Inr emb" and n: "n = length events"
    and pe: "publishEvents tid key mk tz events wq = (Inr n, w')"
    by (rule publishSchedule_success [OF tid run])
  have same: "th0 = th" using th th0 by simp
  have h: "host wq = host w" "meta_file wq = meta_file w" "channels wq = channels w"
          "snowflake wq = snowflake w"
    using qu by (simp_all add: quiet_def)
  have lq: "liveThread wq tid = Some th" using th quiet_views(2) [OF qu, of tid] by simp
  have sq: "storedId wq mk = storedId w mk" by (rule quiet_views(1) [OF qu])
  have mq: "loadMetaAll wq = loadMetaAll w" by (rule quiet_views(3) [OF qu])
  have embq: "buildEmbed (host wq) key events tz = Inr emb" using emb h by simp
  have nfq: "\<not> (truthy (storedId wq mk) \<and> messages th (storedId wq mk) \<noteq> None)"
    using nf sq by simp
  let ?new = "dec (snowflake w)"
  have w': "w' = wq\<lparr>log := log wq @ [ChannelFetch tid]
                          @ (if truthy (storedId w mk) then [MessageFetch tid (storedId w mk)] else [])
                          @ [Send tid placeholder, SaveMeta, Edit tid ?new (shown emb)],
              channels := (channels wq)(tid := Inr (Some (th\<lparr>messages :=
                 (messages th)(?new \<mapsto> shown emb)\<rparr>))),
              snowflake := Suc (snowflake wq),
              meta_file := Some (assign (loadMetaAll w) mk \<lparr>messageId = ?new\<rparr>)\<rparr>"
    using publishEvents_created [OF lq nfq embq] wr same pe sq mq h by simp
  have since: "since w w' = evs @ [ChannelFetch tid]
                          @ (if truthy (storedId w mk) then [MessageFetch tid (storedId w mk)] else [])
                          @ [Send tid placeholder, SaveMeta, Edit tid ?new (shown emb)]"
    by (simp add: since_def w' l)
  note none = isNotion_no_side_effects [OF ev]
  let ?th' = "th\<lparr>messages := (messages th)(?new \<mapsto> shown emb)\<rparr>"
  have a: "fst (queryNotionForMonth db key w) = Inr events" using q by simp
  have l': "liveThread w' tid = Some ?th'" by (simp add: w' liveThread_def)
  have wr': "writable ?th'" using wr same by simp
  have c: "messages ?th' ?new = Some (shown emb)" by simp
  have mf: "meta_file w' = Some (assign (loadMetaAll w) mk \<lparr>messageId = ?new\<rparr>)"
    by (simp add: w')
  have st: "storedId w' mk = ?new"
    by (simp add: storedId_def loadMetaAll_def mf assign_lookup [OF mk])
  have se: "sent (since w w') = [(tid, placeholder)]"
    using none by (simp add: since sent_append) (simp add: sent_def)
  have sa: "saves (since w w') = 1"
    using none by (simp add: since saves_append) (simp add: saves_def)
  have ed: "edited (since w w') = [(tid, ?new)]"
    using none by (simp add: since edited_append) (simp add: edited_def)
  show ?thesis
    by (intro exI [of _ events] exI [of _ emb] exI [of _ ?th'] conjI)
       (rule a emb n l' wr' c st mf se sa ed)+
qed

lemma scoped_key: "guildId @ '':'' @ scopeKey \<noteq> ''__proto__''"
proof
  assume h: "guildId @ '':'' @ scopeKey = ''__proto__''"
  have "CHR '':'' \<in> set (guildId @ '':'' @ scopeKey)" by simp
  then have "CHR '':'' \<in> set ''__proto__''" unfolding h .
  then show False by simp
qed

lemma publishSchedule_post:
  assumes tid: "truthy tid" and mk: "mk \<noteq> ''__proto__''"
      and run: "publishSchedule (Some tid) db key mk tz w = (Inr n, w')"
  shows "\<exists>events emb th'.
           fst (queryNotionForMonth db key w) = Inr events \<and>
           buildEmbed (host w) key events tz = Inr emb \<and> n = length events \<and>
           truthy (storedId w' mk) \<and> liveThread w' tid = Some th' \<and> writable th' \<and>
           messages th' (storedId w' mk) = Some (shown emb) \<and>
           edited (since w w') = [(tid, storedId w' mk)]"
proof -
  obtain events wq th emb evs where
    "queryNotionForMonth db key w = (Inr events, wq)" and "quiet w wq"
    and "log wq = log w @ evs" and "list_all isNotion evs"
    and th: "liveThread w tid = Some th" and "writable th"
    and "buildEmbed (host w) key events tz = Inr emb" and "n = length events"
    and "publishEvents tid key mk tz events wq = (Inr n, w')"
    by (rule publishSchedule_success [OF tid run])
  show ?thesis
  proof (cases "truthy (storedId w mk) \<and> messages th (storedId w mk) \<noteq> None")
    case True
    then have sid: "truthy (storedId w mk)" and mem: "messages th (storedId w mk) \<noteq> None"
      by simp_all
    from publishSchedule_found [OF tid run th sid mem]
    obtain events emb th' where
      "fst (queryNotionForMonth db key w) = Inr events"
      "buildEmbed (host w) key events tz = Inr emb" "n = length events"
      "liveThread w' tid = Some th'" "writable th'"
      "messages th' (storedId w mk) = Some (shown emb)"
      "dom (messages th') = dom (messages th)"
      "storedId w' mk = storedId w mk" "meta_file w' = meta_file w"
      "sent (since w w') = []" "saves (since w w') = 0"
      "edited (since w w') = [(tid, storedId w mk)]"
      by (elim exE conjE) (rule that)
    then show ?thesis using sid by (intro exI [of _ events] exI [of _ emb] exI [of _ th']) simp
  next
    case False
    from publishSchedule_created [OF tid mk run th False]
    obtain events emb th' where
      "fst (queryNotionForMonth db key w) = Inr events"
      "buildEmbed (host w) key events tz = Inr emb" "n = length events"
      "liveThread w' tid = Some th'" "writable th'"
      "messages th' (dec (snowflake w)) = Some (shown emb)"
      "storedId w' mk = dec (snowflake w)"
      "meta_file w' = Some (assign (loadMetaAll w) mk \<lparr>messageId = dec (snowflake w)\<rparr>)"
      "sent (since w w') = [(tid, placeholder)]" "saves (since w w') = 1"
      "edited (since w w') = [(tid, dec (snowflake w))]"
      by (elim exE conjE) (rule that)
    then show ?thesis using dec_truthy [of "snowflake w"]
      by (intro exI [of _ events] exI [of _ emb] exI [of _ th']) simp
  qed
qed

subsection \<open>C3: publishing twice edits one message\<close>

text \<open>
  Claim C3. For every tenant and scope, two successful calls of \<open>publishSchedule\<close> with the
  same arguments, the meta file untouched in between and the stored message still
  fetchable at the second call, own one message: the first call leaves a non-empty
  message id under the key and edits that message; the second call sends nothing, edits
  exactly that message, adds no message to the thread and leaves the key bound to the same
  id; and the content after the second call is the render of the records that the second
  call's own query returned.
\<close>

theorem publishSchedule_twice:
  assumes tid: "truthy tid"
      and key: "metaKey = guildId @ '':'' @ scopeKey"
      and first: "publishSchedule (Some tid) db monthKey metaKey tz w0 = (Inr n1, w1)"
      and kept: "meta_file w2 = meta_file w1"
      and still: "fetchable w2 tid (storedId w1 metaKey)"
      and second: "publishSchedule (Some tid) db monthKey metaKey tz w2 = (Inr n2, w3)"
  shows "\<exists>mid t2 t3 events2 emb2.
           storedId w1 metaKey = mid \<and> truthy mid \<and> fetchable w1 tid mid \<and>
           edited (since w0 w1) = [(tid, mid)] \<and>
           storedId w3 metaKey = mid \<and> meta_file w3 = meta_file w2 \<and>
           sent (since w2 w3) = [] \<and> edited (since w2 w3) = [(tid, mid)] \<and>
           liveThread w2 tid = Some t2 \<and> liveThread w3 tid = Some t3 \<and>
           dom (messages t3) = dom (messages t2) \<and>
           fst (queryNotionForMonth db monthKey w2) = Inr events2 \<and>
           buildEmbed (host w2) monthKey events2 tz = Inr emb2 \<and>
           messages t3 mid = Some (shown emb2) \<and> n2 = length events2"
proof -
  let ?mid = "storedId w1 metaKey"
  have mk: "metaKey \<noteq> ''__proto__''" unfolding key by (rule scoped_key)
  from publishSchedule_post [OF tid mk first] obtain events1 emb1 t1 where
    "fst (queryNotionForMonth db monthKey w0) = Inr events1"
    "buildEmbed (host w0) monthKey events1 tz = Inr emb1" "n1 = length events1"
    and m1: "truthy ?mid" and l1: "liveThread w1 tid = Some t1" and "writable t1"
    and c1: "messages t1 ?mid = Some (shown emb1)"
    and e1: "edited (since w0 w1) = [(tid, ?mid)]"
    by (elim exE conjE) (rule that)
  have f1: "fetchable w1 tid ?mid" using l1 c1 by (simp add: fetchable_def)
  have s2: "storedId w2 metaKey = ?mid" using kept by (simp add: storedId_def loadMetaAll_def)
  from still obtain t2 where l2: "liveThread w2 tid = Some t2" and mem2: "messages t2 ?mid \<noteq> None"
    by (auto simp: fetchable_def split: option.splits)
  have sid2: "truthy (storedId w2 metaKey)" and mem2': "messages t2 (storedId w2 metaKey) \<noteq> None"
    using m1 mem2 s2 by simp_all
  from publishSchedule_found [OF tid second l2 sid2 mem2'] obtain events2 emb2 t3 where
    "fst (queryNotionForMonth db monthKey w2) = Inr events2"
    "buildEmbed (host w2) monthKey events2 tz = Inr emb2" "n2 = length events2"
    "liveThread w3 tid = Some t3" "writable t3"
    "messages t3 (storedId w2 metaKey) = Some (shown emb2)"
    "dom (messages t3) = dom (messages t2)"
    "storedId w3 metaKey = storedId w2 metaKey" "meta_file w3 = meta_file w2"
    "sent (since w2 w3) = []" "saves (since w2 w3) = 0"
    "edited (since w2 w3) = [(tid, storedId w2 metaKey)]"
    by (elim exE conjE) (rule that)
  then show ?thesis using m1 f1 e1 l2 s2
    by (intro exI [of _ ?mid] exI [of _ t2] exI [of _ t3] exI [of _ events2] exI [of _ emb2])
       simp
qed

lemma edit_log_meta:
  "log (snd (edit tid mid p w)) = log w @ [Edit tid mid p] \<and>
   meta_file (snd (edit tid mid p w)) = meta_file w"
  by (auto simp: edit_def Let_def split: option.splits)

lemma ensureScheduleMessage_effect:
  "\<exists>evs. log (snd (ensureScheduleMessage tid mk w)) = log w @ evs \<and>
     ((meta_file (snd (ensureScheduleMessage tid mk w)) = meta_file w \<and> saves evs = 0) \<or>
      (meta_file (snd (ensureScheduleMessage tid mk w)) =
         Some (assign (loadMetaAll w) mk \<lparr>messageId = dec (snowflake w)\<rparr>) \<and>
       \<not> (truthy (storedId w mk) \<and> fetchable w tid (storedId w mk))))"
proof (cases "truthy (storedId w mk) \<and> fetchable w tid (storedId w mk)")
  case True
  then have "ensureScheduleMessage tid mk w =
           (Inr (storedId w mk), w\<lparr>log := log w @ [MessageFetch tid (storedId w mk)]\<rparr>)"
    using ensureScheduleMessage_found [of w mk tid] by simp
  then show ?thesis
    by (intro exI [of _ "[MessageFetch tid (storedId w mk)]"]) (simp add: saves_def)
next
  case False
  show ?thesis
  proof (cases "\<exists>th. liveThread w tid = Some th \<and> writable th")
    case True
    then obtain th where "liveThread w tid = Some th" "writable th" by blast
    from ensureScheduleMessage_created [OF False this] False show ?thesis
      by (intro exI [of _ "(if truthy (storedId w mk) then [MessageFetch tid (storedId w mk)] else [])
                          @ [Send tid placeholder, SaveMeta]"]) simp
  next
    case nw: False
    from ensureScheduleMessage_failed [OF False nw] obtain e where
      "ensureScheduleMessage tid mk w =
           (Inl e,
            w\<lparr>log := log w @ (if truthy (storedId w mk) then [MessageFetch tid (storedId w mk)] else [])
                          @ [Send tid placeholder]\<rparr>)" ..
    then show ?thesis
      by (intro exI [of _ "(if truthy (storedId w mk) then [MessageFetch tid (storedId w mk)] else [])
                          @ [Send tid placeholder]"]) (simp add: saves_def)
  qed
qed

lemma publishEvents_effect:
  "\<exists>evs. log (snd (publishEvents tid key mk tz events w)) = log w @ evs \<and>
     ((meta_file (snd (publishEvents tid key mk tz events w)) = meta_file w \<and> saves evs = 0) \<or>
      (meta_file (snd (publishEvents tid key mk tz events w)) =
         Some (assign (loadMetaAll w) mk \<lparr>messageId = dec (snowflake w)\<rparr>) \<and>
       \<not> (truthy (storedId w mk) \<and> fetchable w tid (storedId w mk))))"
proof (cases rule: publishEvents_cases [where w = w and tid = tid and key = key
          and metaKey = mk and tzLabel = tz and events = events])
  case (unreachable e)
  then show ?thesis
    by (intro exI [of _ "[ChannelFetch tid]"]) (simp add: afterChannelFetch_def saves_def)
next
  case missing
  then show ?thesis
    by (intro exI [of _ "[ChannelFetch tid]"]) (simp add: afterChannelFetch_def saves_def)
next
  case (live th)
  let ?w2 = "afterChannelFetch tid w"
  have v: "storedId ?w2 mk = storedId w mk" "fetchable ?w2 tid = fetchable w tid"
          "loadMetaAll ?w2 = loadMetaAll w" "snowflake ?w2 = snowflake w"
          "meta_file ?w2 = meta_file w" "log ?w2 = log w @ [ChannelFetch tid]"
    by (simp_all add: afterChannelFetch_def storedId_def fetchable_def loadMetaAll_def
                      liveThread_def fun_eq_iff)
  obtain m w3 where en: "ensureScheduleMessage tid mk ?w2 = (m, w3)"
    by (cases "ensureScheduleMessage tid mk ?w2")
  from ensureScheduleMessage_effect [of tid mk ?w2] en obtain evs where
    l3: "log w3 = log w @ [ChannelFetch tid] @ evs"
    and m3: "(meta_file w3 = meta_file w \<and> saves evs = 0) \<or>
             (meta_file w3 = Some (assign (loadMetaAll w) mk \<lparr>messageId = dec (snowflake w)\<rparr>) \<and>
              \<not> (truthy (storedId w mk) \<and> fetchable w tid (storedId w mk)))"
    unfolding v by (elim exE conjE) simp
  have stop: ?thesis if "snd (publishEvents tid key mk tz events w) = w3"
    using that l3 m3 by (intro exI [of _ "[ChannelFetch tid] @ evs"]) (simp add: saves_append saves_def)
  have go: ?thesis
    if "snd (publishEvents tid key mk tz events w) = snd (edit tid msg p w3)" for msg p
    using that l3 m3 edit_log_meta [of tid msg p w3]
    by (intro exI [of _ "[ChannelFetch tid] @ evs @ [Edit tid msg p]"])
       (simp add: saves_append saves_def)
  show ?thesis
  proof (cases m)
    case (Inl e)
    then show ?thesis using live(2) en by (intro stop) simp
  next
    case (Inr msg)
    show ?thesis
    proof (cases "buildEmbed (host w3) key events tz")
      case (Inl e)
      then show ?thesis using live(2) en Inr by (intro stop) simp
    next
      case emb: (Inr emb)
      show ?thesis
        using live(2) en Inr emb
        by (intro go [of msg "\<lparr>content = [], embeds = [emb]\<rparr>"])
           (simp split: prod.splits sum.splits)
    qed
  qed
qed

subsection \<open>C10: the meta file outside the key\<close>

text \<open>
  Claim C10. Whatever \<open>publishSchedule\<close> does, every key of the meta mapping other than its
  own reads after the call as before it; the file is either left as it was or holds the
  mapping that was read with the one key set to the id of the new message; and when the
  stored message id can still be fetched the file is not written at all.
\<close>

theorem publishSchedule_meta_frame:
  "(\<forall>k. k \<noteq> metaKey \<longrightarrow>
      loadMetaAll (snd (publishSchedule threadId db key metaKey tz w)) k = loadMetaAll w k) \<and>
   (meta_file (snd (publishSchedule threadId db key metaKey tz w)) = meta_file w \<or>
    meta_file (snd (publishSchedule threadId db key metaKey tz w)) =
      Some (assign (loadMetaAll w) metaKey \<lparr>messageId = dec (snowflake w)\<rparr>)) \<and>
   (\<forall>tid. threadId = Some tid \<and> truthy (storedId w metaKey) \<and>
          fetchable w tid (storedId w metaKey) \<longrightarrow>
      meta_file (snd (publishSchedule threadId db key metaKey tz w)) = meta_file w \<and>
      saves (since w (snd (publishSchedule threadId db key metaKey tz w))) = 0)"
proof -
  let ?w' = "snd (publishSchedule threadId db key metaKey tz w)"
  let ?patched = "Some (assign (loadMetaAll w) metaKey \<lparr>messageId = dec (snowflake w)\<rparr>)"
  have main: "\<exists>evs. log ?w' = log w @ evs \<and>
     ((meta_file ?w' = meta_file w \<and> saves evs = 0) \<or>
      (meta_file ?w' = ?patched \<and>
       (\<exists>tid. threadId = Some tid \<and>
          \<not> (truthy (storedId w metaKey) \<and> fetchable w tid (storedId w metaKey)))))"
  proof (cases "\<exists>tid. threadId = Some tid \<and> truthy tid")
    case False
    then have "?w' = w" by (cases threadId) (simp_all add: publishSchedule_def)
    then show ?thesis by (intro exI [of _ "[]"]) (simp add: saves_def)
  next
    case True
    then obtain tid where tid: "threadId = Some tid" "truthy tid" by blast
    obtain r wq where q: "queryNotionForMonth db key w = (r, wq)"
      by (cases "queryNotionForMonth db key w")
    have qu: "quiet w wq" using queryNotionForMonth_quiet [of w db key] q by simp
    then obtain evs where evs: "log wq = log w @ evs" "list_all isNotion evs"
      by (auto simp: quiet_def)
    have s0: "saves evs = 0" using isNotion_no_side_effects [OF evs(2)] by simp
    have v: "meta_file wq = meta_file w" "snowflake wq = snowflake w"
      using qu by (simp_all add: quiet_def)
    show ?thesis
    proof (cases r)
      case (Inl e)
      then have "?w' = wq" using tid q by (simp add: publishSchedule_unfold)
      then show ?thesis using evs s0 v by (intro exI [of _ evs]) simp
    next
      case (Inr events)
      then have w': "?w' = snd (publishEvents tid key metaKey tz events wq)"
        using tid q by (simp add: publishSchedule_unfold)
      from publishEvents_effect [of tid key metaKey tz events wq] obtain evs' where
        l: "log ?w' = log wq @ evs'"
        and m: "(meta_file ?w' = meta_file wq \<and> saves evs' = 0) \<or>
                (meta_file ?w' = Some (assign (loadMetaAll wq) metaKey \<lparr>messageId = dec (snowflake wq)\<rparr>) \<and>
                 \<not> (truthy (storedId wq metaKey) \<and> fetchable wq tid (storedId wq metaKey)))"
        unfolding w' by (elim exE conjE) simp
      show ?thesis
        using l m evs s0 v tid quiet_views [OF qu]
        by (intro exI [of _ "evs @ evs'"]) (auto simp: saves_append)
    qed
  qed
  then obtain evs where l: "log ?w' = log w @ evs"
    and m: "(meta_file ?w' = meta_file w \<and> saves evs = 0) \<or>
      (meta_file ?w' = ?patched \<and>
       (\<exists>tid. threadId = Some tid \<and>
          \<not> (truthy (storedId w metaKey) \<and> fetchable w tid (storedId w metaKey))))"
    by (elim exE conjE) (rule that)
  have s: "since w ?w' = evs" using l by (simp add: since_def)
  have frame: "loadMetaAll ?w' k = loadMetaAll w k" if "k \<noteq> metaKey" for k
    using m that by (auto simp: loadMetaAll_def assign_other)
  show ?thesis
    using frame m s by (intro conjI allI impI) auto
qed

subsection \<open>The query as a function of the host and the Notion service\<close>

lemma getPageTitleCached_alike:
  "alike w v \<Longrightarrow>
     fst (getPageTitleCached pid w) = fst (getPageTitleCached pid v) \<and>
     alike (snd (getPageTitleCached pid w)) (snd (getPageTitleCached pid v))"
  by (auto simp: alike_def getPageTitleCached_def notionGetPage_def Let_def
           split: option.splits sum.splits)

lemma resolveEach_alike:
  "alike w v \<Longrightarrow>
     fst (resolveEach ids names w) = fst (resolveEach ids names v) \<and>
     alike (snd (resolveEach ids names w)) (snd (resolveEach ids names v))"
proof (induction ids arbitrary: names w v)
  case Nil
  then show ?case by simp
next
  case (Cons pid rest)
  obtain r w1 where sw: "getPageTitleCached pid w = (r, w1)"
    by (cases "getPageTitleCached pid w")
  obtain r' v1 where sv: "getPageTitleCached pid v = (r', v1)"
    by (cases "getPageTitleCached pid v")
  from getPageTitleCached_alike [OF Cons.prems, of pid] sw sv
  have eq: "r' = r" and al: "alike w1 v1" by simp_all
  show ?case
  proof (cases r)
    case (Inl e)
    then show ?thesis using sw sv eq al by simp
  next
    case (Inr t)
    then show ?thesis using sw sv eq Cons.IH [OF al] by simp
  qed
qed

lemma resolveRelationNames_alike:
  assumes "alike w v"
  shows "fst (resolveRelationNames prop mx w) = fst (resolveRelationNames prop mx v) \<and>
         alike (snd (resolveRelationNames prop mx w)) (snd (resolveRelationNames prop mx v))"
proof -
  let ?ids = "take mx (relationIds prop)"
  obtain r w1 where sw: "resolveEach ?ids [] w = (r, w1)" by (cases "resolveEach ?ids [] w")
  obtain r' v1 where sv: "resolveEach ?ids [] v = (r', v1)" by (cases "resolveEach ?ids [] v")
  from resolveEach_alike [OF assms, of ?ids "[]"] sw sv
  have "r' = r" "alike w1 v1" by simp_all
  then show ?thesis using assms sw sv
    by (cases r) (simp_all add: resolveRelationNames_def Let_def)
qed

lemma collectItems_alike:
  "alike w v \<Longrightarrow>
     fst (collectItems pages items w) = fst (collectItems pages items v) \<and>
     alike (snd (collectItems pages items w)) (snd (collectItems pages items v))"
proof (induction pages arbitrary: items w v)
  case Nil
  then show ?case by simp
next
  case (Cons p rest)
  have h: "host w = host v" using Cons.prems by (simp add: alike_def)
  show ?case
  proof (cases "dateStart (getProp p ''Date'')")
    case None
    then show ?thesis using Cons.IH [OF Cons.prems] by simp
  next
    case (Some ds)
    obtain r1 w1 where a: "resolveRelationNames (getProp p ''Artist'') 2 w = (r1, w1)"
      by (cases "resolveRelationNames (getProp p ''Artist'') 2 w")
    obtain r1' v1 where a': "resolveRelationNames (getProp p ''Artist'') 2 v = (r1', v1)"
      by (cases "resolveRelationNames (getProp p ''Artist'') 2 v")
    from resolveRelationNames_alike [OF Cons.prems, of "getProp p ''Artist''" 2] a a'
    have e1: "r1' = r1" and al1: "alike w1 v1" by simp_all
    obtain r2 w2 where m: "resolveRelationNames (getProp p ''Member'') 2 w1 = (r2, w2)"
      by (cases "resolveRelationNames (getProp p ''Member'') 2 w1")
    obtain r2' v2 where m': "resolveRelationNames (getProp p ''Member'') 2 v1 = (r2', v2)"
      by (cases "resolveRelationNames (getProp p ''Member'') 2 v1")
    from resolveRelationNames_alike [OF al1, of "getProp p ''Member''" 2] m m'
    have e2: "r2' = r2" and al2: "alike w2 v2" by simp_all
    show ?thesis
    proof (cases r1)
      case (Inl e)
      then show ?thesis using Some a a' e1 al1 by (simp add: Let_def)
    next
      case ar: (Inr artistNames)
      show ?thesis
      proof (cases r2)
        case (Inl e)
        then show ?thesis using Some a a' m m' e1 e2 ar al2 by (simp add: Let_def)
      next
        case (Inr memberNames)
        then show ?thesis using Some a a' m m' e1 e2 ar h Cons.IH [OF al2]
          by (simp add: Let_def)
      qed
    qed
  qed
qed

lemma queryNotionForMonth_sameBase:
  assumes "sameBase w v"
  shows "fst (queryNotionForMonth db key w) = fst (queryNotionForMonth db key v)"
proof -
  have h: "host w = host v" "notion_query w = notion_query v"
    using assms by (simp_all add: sameBase_def)
  show ?thesis
  proof (cases rule: queryNotionForMonth_cases [where db = db and key = key and w = w])
    case invalid
    then show ?thesis
      by (cases rule: queryNotionForMonth_cases [where db = db and key = key and w = v])
         (auto simp: h)
  next
    case (refused s e err)
    then show ?thesis
      by (cases rule: queryNotionForMonth_cases [where db = db and key = key and w = v])
         (auto simp: h)
  next
    case a: (answered s e results)
    have al: "alike (afterQuery db (monthQuery s e) w) (afterQuery db (monthQuery s e) v)"
      using assms by (simp add: alike_def sameBase_def afterQuery_def)
    note c = collectItems_alike [OF al, of results "[]"]
    show ?thesis
    proof (cases rule: queryNotionForMonth_cases [where db = db and key = key and w = v])
      case invalid
      then show ?thesis using a by (auto simp: h)
    next
      case (refused s' e' err)
      then show ?thesis using a by (auto simp: h)
    next
      case b: (answered s' e' results')
      then have "s' = s" "e' = e" "results' = results" using a h by simp_all
      then show ?thesis using a(3) b(3) c
        by (auto split: prod.splits sum.splits)
    qed
  qed
qed

subsection \<open>Two publications on the sample installation\<close>

lemma quiet_sameBase: "quiet w w' \<Longrightarrow> sameBase w w'"
  by (simp add: quiet_def sameBase_def)

lemma sameBase_trans: "sameBase w w1 \<Longrightarrow> sameBase w1 w2 \<Longrightarrow> sameBase w w2"
  by (simp add: sameBase_def)

lemma ensureScheduleMessage_sameBase: "sameBase w (snd (ensureScheduleMessage tid mk w))"
  by (auto simp: sameBase_def ensureScheduleMessage_def messagesFetch_def send_def
                 saveMetaAll_def Let_def
           split: prod.splits sum.splits option.splits if_splits)

lemma edit_sameBase: "sameBase w (snd (edit tid mid p w))"
  by (auto simp: sameBase_def edit_def Let_def split: option.splits)

lemma publishEvents_sameBase: "sameBase w (snd (publishEvents tid key mk tz events w))"
proof (cases rule: publishEvents_cases [where w = w and tid = tid and key = key
          and metaKey = mk and tzLabel = tz and events = events])
  case (unreachable e)
  then show ?thesis by (simp add: afterChannelFetch_def sameBase_def)
next
  case missing
  then show ?thesis by (simp add: afterChannelFetch_def sameBase_def)
next
  case (live th)
  let ?w2 = "afterChannelFetch tid w"
  obtain m w3 where en: "ensureScheduleMessage tid mk ?w2 = (m, w3)"
    by (cases "ensureScheduleMessage tid mk ?w2")
  have b2: "sameBase w ?w2" by (simp add: afterChannelFetch_def sameBase_def)
  have b3: "sameBase w w3"
    using sameBase_trans [OF b2 ensureScheduleMessage_sameBase [of ?w2 tid mk]] en by simp
  have b4: "sameBase w (snd (edit tid msg p w3))" for msg p
    by (rule sameBase_trans [OF b3 edit_sameBase])
  show ?thesis
  proof (cases m)
    case (Inl e)
    then show ?thesis using live(2) en b3 by simp
  next
    case (Inr msg)
    show ?thesis
    proof (cases "buildEmbed (host w3) key events tz")
      case (Inl e)
      then show ?thesis using live(2) en Inr b3 by simp
    next
      case emb: (Inr emb)
      have "snd (publishEvents tid key mk tz events w)
              = snd (edit tid msg \<lparr>content = [], embeds = [emb]\<rparr> w3)"
        using live(2) en Inr emb by (simp split: prod.splits sum.splits)
      then show ?thesis using b4 by simp
    qed
  qed
qed

lemma publishSchedule_sameBase:
  "sameBase w (snd (publishSchedule threadId db key mk tz w))"
proof (cases "\<exists>tid. threadId = Some tid \<and> truthy tid")
  case False
  then have "snd (publishSchedule threadId db key mk tz w) = w"
    by (cases threadId) (simp_all add: publishSchedule_def)
  then show ?thesis by (simp add: sameBase_def)
next
  case True
  then obtain tid where tid: "threadId = Some tid" "truthy tid" by blast
  obtain r wq where q: "queryNotionForMonth db key w = (r, wq)"
    by (cases "queryNotionForMonth db key w")
  have bq: "sameBase w wq"
    using quiet_sameBase [OF queryNotionForMonth_quiet [of w db key]] q by simp
  show ?thesis
  proof (cases r)
    case (Inl e)
    then show ?thesis using tid q bq by (simp add: publishSchedule_unfold)
  next
    case (Inr events)
    then show ?thesis
      using tid q sameBase_trans [OF bq publishEvents_sameBase [of wq tid key mk tz events]]
      by (simp add: publishSchedule_unfold)
  qed
qed

lemma publishSchedule_progress:
  assumes "truthy tid" and "fst (queryNotionForMonth db key w) = Inr events"
      and "liveThread w tid = Some th" and "writable th"
      and "buildEmbed (host w) key events tz = Inr emb"
  shows "fst (publishSchedule (Some tid) db key mk tz w) = Inr (length events)"
proof -
  obtain wq where q: "queryNotionForMonth db key w = (Inr events, wq)"
    using assms(2) by (cases "queryNotionForMonth db key w") simp
  have qu: "quiet w wq" using queryNotionForMonth_quiet [of w db key] q by simp
  have l: "liveThread wq tid = Some th" using assms(3) quiet_views(2) [OF qu, of tid] by simp
  have e: "buildEmbed (host wq) key events tz = Inr emb"
    using assms(5) qu by (simp add: quiet_def)
  show ?thesis
    using publishEvents_progress [OF l assms(4) e, of mk] q assms(1)
    by (simp add: publishSchedule_unfold)
qed

lemma demo_first_run:
  "publishSchedule (Some ''T1'') ''db1'' (2026, 2) ''G1:thisMonth'' ''KST'' demo_world
     = (Inr 2, demo_first)"
proof -
  have l: "liveThread demo_world ''T1'' = Some \<lparr>messages = Map.empty, writable = True\<rparr>"
    by (simp add: demo_world_def liveThread_def)
  obtain emb where e: "buildEmbed (host demo_world) (2026, 2) [demo_release, demo_showcase] ''KST''
                         = Inr emb"
    by (simp add: buildEmbed_def demo_world_def demo_host_def Let_def)
  have "fst (publishSchedule (Some ''T1'') ''db1'' (2026, 2) ''G1:thisMonth'' ''KST'' demo_world)
          = Inr (length [demo_release, demo_showcase])"
    by (rule publishSchedule_progress [OF _ demo_query l _ e]) (simp_all add: truthy_def)
  then show ?thesis by (simp add: demo_first_def prod_eq_iff)
qed

lemma demo_key: "''G1:thisMonth'' = ''G1'' @ '':'' @ ''thisMonth''"
  by simp

lemma demo_key_plain: "''G1:thisMonth'' \<noteq> ''__proto__''"
  by simp

lemma demo_first_created:
  "storedId demo_first ''G1:thisMonth'' = ''1000'' \<and>
   sent (since demo_world demo_first) = [(''T1'', placeholder)] \<and>
   saves (since demo_world demo_first) = 1 \<and>
   edited (since demo_world demo_first) = [(''T1'', ''1000'')] \<and>
   meta_file demo_first =
     Some [''G2:nextMonth'' \<mapsto> \<lparr>messageId = ''900''\<rparr>, ''G1:thisMonth'' \<mapsto> \<lparr>messageId = ''1000''\<rparr>]"
proof -
  have t: "truthy ''T1''" by (simp add: truthy_def)
  have l: "liveThread demo_world ''T1'' = Some \<lparr>messages = Map.empty, writable = True\<rparr>"
    by (simp add: demo_world_def liveThread_def)
  have s: "storedId demo_world ''G1:thisMonth'' = []"
    by (simp add: storedId_def loadMetaAll_def demo_world_def)
  have nf: "\<not> (truthy (storedId demo_world ''G1:thisMonth'') \<and>
                messages \<lparr>messages = Map.empty, writable = True\<rparr>
                  (storedId demo_world ''G1:thisMonth'') \<noteq> None)"
    by (simp add: s truthy_def)
  have n: "dec (snowflake demo_world) = ''1000''" by code_simp
  have m: "assign (loadMetaAll demo_world) ''G1:thisMonth'' \<lparr>messageId = ''1000''\<rparr>
             = [''G2:nextMonth'' \<mapsto> \<lparr>messageId = ''900''\<rparr>, ''G1:thisMonth'' \<mapsto> \<lparr>messageId = ''1000''\<rparr>]"
    by (simp add: assign_def loadMetaAll_def demo_world_def)
  from publishSchedule_created [OF t demo_key_plain demo_first_run l nf]
  show ?thesis unfolding n m by (elim exE conjE) simp
qed

lemma demo_changed_query:
  "fst (queryNotionForMonth ''db1'' (2026, 2) demo_changed) = Inr [demo_release]"
proof -
  let ?v = "demo_world\<lparr>notion_query := (\<lambda>db q. Response 200 [] [demo_pages ! 1])\<rparr>"
  have "sameBase demo_world demo_first"
    unfolding demo_first_def by (rule publishSchedule_sameBase)
  then have "sameBase demo_changed ?v"
    by (simp add: sameBase_def demo_changed_def)
  then have "fst (queryNotionForMonth ''db1'' (2026, 2) demo_changed)
               = fst (queryNotionForMonth ''db1'' (2026, 2) ?v)"
    by (rule queryNotionForMonth_sameBase)
  also have "\<dots> = Inr [demo_release]" by code_simp
  finally show ?thesis .
qed

lemma demo_changed_host: "host demo_changed = demo_host"
proof -
  have "sameBase demo_world demo_first"
    unfolding demo_first_def by (rule publishSchedule_sameBase)
  then show ?thesis by (simp add: sameBase_def demo_changed_def demo_world_def)
qed

lemma demo_release_body:
  "scheduleBody demo_host [demo_release] = ''[FEB 03] '' @ glyph_release @ '' Album X''"
  by code_simp

lemma demo_first_fetchable:
  "truthy (storedId demo_first ''G1:thisMonth'') \<and>
   fetchable demo_first ''T1'' (storedId demo_first ''G1:thisMonth'') \<and>
   (\<exists>th. liveThread demo_first ''T1'' = Some th \<and> writable th)"
proof -
  have t: "truthy ''T1''" by (simp add: truthy_def)
  from publishSchedule_post [OF t demo_key_plain demo_first_run]
  obtain events emb th' where
    "fst (queryNotionForMonth ''db1'' (2026, 2) demo_world) = Inr events"
    "buildEmbed (host demo_world) (2026, 2) events ''KST'' = Inr emb" "2 = length events"
    "truthy (storedId demo_first ''G1:thisMonth'')"
    "liveThread demo_first ''T1'' = Some th'" "writable th'"
    "messages th' (storedId demo_first ''G1:thisMonth'') = Some (shown emb)"
    "edited (since demo_world demo_first) = [(''T1'', storedId demo_first ''G1:thisMonth'')]"
    by (elim exE conjE) (rule that)
  then show ?thesis by (simp add: fetchable_def)
qed

lemma demo_second_run:
  "publishSchedule (Some ''T1'') ''db1'' (2026, 2) ''G1:thisMonth'' ''KST'' demo_changed
     = (Inr 1, demo_second)"
proof -
  from demo_first_fetchable [THEN conjunct2, THEN conjunct2] obtain th where
    "liveThread demo_first ''T1'' = Some th" and w: "writable th"
    by (elim exE conjE) (rule that)
  then have l: "liveThread demo_changed ''T1'' = Some th"
    by (simp add: demo_changed_def liveThread_def)
  obtain emb where e: "buildEmbed (host demo_changed) (2026, 2) [demo_release] ''KST'' = Inr emb"
    by (simp add: buildEmbed_def demo_changed_host demo_host_def Let_def)
  have "fst (publishSchedule (Some ''T1'') ''db1'' (2026, 2) ''G1:thisMonth'' ''KST'' demo_changed)
          = Inr (length [demo_release])"
    by (rule publishSchedule_progress [OF _ demo_changed_query l w e]) (simp add: truthy_def)
  then show ?thesis by (simp add: demo_second_def prod_eq_iff)
qed

theorem publishSchedule_twice_witness:
  "truthy ''T1'' \<and>
   publishSchedule (Some ''T1'') ''db1'' (2026, 2) ''G1:thisMonth'' ''KST'' demo_world
     = (Inr 2, demo_first) \<and>
   meta_file demo_changed = meta_file demo_first \<and>
   fetchable demo_changed ''T1'' (storedId demo_first ''G1:thisMonth'') \<and>
   publishSchedule (Some ''T1'') ''db1'' (2026, 2) ''G1:thisMonth'' ''KST'' demo_changed
     = (Inr 1, demo_second) \<and>
   storedId demo_first ''G1:thisMonth'' = ''1000'' \<and>
   sent (since demo_world demo_first) = [(''T1'', placeholder)] \<and>
   sent (since demo_changed demo_second) = [] \<and>
   edited (since demo_changed demo_second) = [(''T1'', ''1000'')] \<and>
   storedId demo_second ''G1:thisMonth'' = ''1000'' \<and>
   (\<exists>t3 emb2. liveThread demo_second ''T1'' = Some t3 \<and>
      buildEmbed demo_host (2026, 2) [demo_release] ''KST'' = Inr emb2 \<and>
      messages t3 ''1000'' = Some (shown emb2) \<and>
      embed_description emb2 = ''[FEB 03] '' @ glyph_release @ '' Album X'')"
proof -
  have t: "truthy ''T1''" by (simp add: truthy_def)
  have kept: "meta_file demo_changed = meta_file demo_first"
    by (simp add: demo_changed_def)
  have still: "fetchable demo_changed ''T1'' (storedId demo_first ''G1:thisMonth'')"
    using demo_first_fetchable by (simp add: fetchable_def demo_changed_def liveThread_def)
  note c = demo_first_created
  from publishSchedule_twice [OF t demo_key demo_first_run kept still demo_second_run]
  obtain mid t2 t3 events2 emb2 where
    "storedId demo_first ''G1:thisMonth'' = mid" "truthy mid" "fetchable demo_first ''T1'' mid"
    "edited (since demo_world demo_first) = [(''T1'', mid)]"
    "storedId demo_second ''G1:thisMonth'' = mid" "meta_file demo_second = meta_file demo_changed"
    "sent (since demo_changed demo_second) = []"
    "edited (since demo_changed demo_second) = [(''T1'', mid)]"
    "liveThread demo_changed ''T1'' = Some t2" "liveThread demo_second ''T1'' = Some t3"
    "dom (messages t3) = dom (messages t2)"
    "fst (queryNotionForMonth ''db1'' (2026, 2) demo_changed) = Inr events2"
    "buildEmbed (host demo_changed) (2026, 2) events2 ''KST'' = Inr emb2"
    "messages t3 mid = Some (shown emb2)" "1 = length events2"
    by (elim exE conjE) (rule that)
  note r = this
  have mid: "mid = ''1000''" using r(1) c by simp
  have ev: "events2 = [demo_release]" using r(12) demo_changed_query by simp
  have b: "buildEmbed demo_host (2026, 2) [demo_release] ''KST'' = Inr emb2"
    using r(13) ev demo_changed_host by simp
  have d: "embed_description emb2 = ''[FEB 03] '' @ glyph_release @ '' Album X''"
  proof -
    have "embed_description emb2 = scheduleBody demo_host [demo_release]"
      using b by (simp add: buildEmbed_def Let_def demo_host_def) (erule subst, simp)
    then show ?thesis by (simp only: demo_release_body)
  qed
  have last: "\<exists>t3 emb2. liveThread demo_second ''T1'' = Some t3 \<and>
      buildEmbed demo_host (2026, 2) [demo_release] ''KST'' = Inr emb2 \<and>
      messages t3 ''1000'' = Some (shown emb2) \<and>
      embed_description emb2 = ''[FEB 03] '' @ glyph_release @ '' Album X''"
    using r(10) b r(14) d mid by (intro exI [of _ t3] exI [of _ emb2]) simp
  have c1: "storedId demo_first ''G1:thisMonth'' = ''1000''"
    and c2: "sent (since demo_world demo_first) = [(''T1'', placeholder)]"
    using c by simp_all
  have s5: "storedId demo_second ''G1:thisMonth'' = ''1000''" using r(5) mid by simp
  have s8: "edited (since demo_changed demo_second) = [(''T1'', ''1000'')]"
    using r(8) mid by simp
  show ?thesis
    by (intro conjI) (rule t demo_first_run kept still demo_second_run c1 c2 r(7) s8 s5 last)+
qed

theorem publishSchedule_meta_frame_witness:
  "''G2:nextMonth'' \<noteq> ''G1:thisMonth'' \<and>
   loadMetaAll demo_world ''G2:nextMonth'' = Some \<lparr>messageId = ''900''\<rparr> \<and>
   loadMetaAll demo_first ''G2:nextMonth'' = Some \<lparr>messageId = ''900''\<rparr> \<and>
   truthy (storedId demo_first ''G1:thisMonth'') \<and>
   fetchable demo_first ''T1'' (storedId demo_first ''G1:thisMonth'') \<and>
   meta_file (snd (publishSchedule (Some ''T1'') ''db1'' (2026, 2) ''G1:thisMonth'' ''KST''
                     demo_first)) = meta_file demo_first \<and>
   saves (since demo_first
            (snd (publishSchedule (Some ''T1'') ''db1'' (2026, 2) ''G1:thisMonth'' ''KST''
                    demo_first))) = 0"
proof -
  have k: "''G2:nextMonth'' \<noteq> ''G1:thisMonth''" by simp
  have m0: "loadMetaAll demo_world ''G2:nextMonth'' = Some \<lparr>messageId = ''900''\<rparr>"
    by (simp add: loadMetaAll_def demo_world_def)
  note a = publishSchedule_meta_frame [of "''G1:thisMonth''" "Some ''T1''" "''db1''" "(2026, 2)"
         "''KST''" demo_world]
  have "loadMetaAll demo_first ''G2:nextMonth'' = loadMetaAll demo_world ''G2:nextMonth''"
    unfolding demo_first_def by (rule a [THEN conjunct1, THEN spec, THEN mp, OF k])
  then have m1: "loadMetaAll demo_first ''G2:nextMonth'' = Some \<lparr>messageId = ''900''\<rparr>"
    using m0 by simp
  note f = demo_first_fetchable
  have f1: "truthy (storedId demo_first ''G1:thisMonth'')"
    and f2: "fetchable demo_first ''T1'' (storedId demo_first ''G1:thisMonth'')"
    using f by simp_all
  have pre: "Some ''T1'' = Some ''T1'' \<and> truthy (storedId demo_first ''G1:thisMonth'') \<and>
          fetchable demo_first ''T1'' (storedId demo_first ''G1:thisMonth'')"
    by (intro conjI refl f1 f2)
  note b = publishSchedule_meta_frame [of "''G1:thisMonth''" "Some ''T1''" "''db1''" "(2026, 2)"
         "''KST''" demo_first]
  note c = b [THEN conjunct2, THEN conjunct2, THEN spec, THEN mp, OF pre]
  show ?thesis
    by (intro conjI) (rule k m0 m1 f1 f2 c [THEN conjunct1] c [THEN conjunct2])+
qed

end
